theory Spec2Isabelle
  imports Complex_Main "HOL-Library.Multiset" "HOL-Library.Log_Nat"
begin

section \<open>JavaScript numbers\<close>

text \<open>
  The fields of a product and every derived figure are JavaScript numbers: IEEE 754
  binary64 values. A number is a finite value, one of the two infinities, or NaN. The
  two zeros are one value here, taken as the positive zero where a division by it has
  to pick a sign; the source never divides by a negative zero (its divisors are a
  truthy number, the literal 100, a sum \<open>1 + x\<close>, and an array length).
\<close>

datatype jsnum = Fin real | PInf | NInf | NaN

subsection \<open>Rounding to binary64\<close>

text \<open>
  Every arithmetic operation computes the exact result and rounds it to the nearest
  binary64 value, ties to the even significand. A binary64 value has a significand of
  53 bits and an exponent from \<open>-1022\<close> to \<open>1023\<close>; below \<open>2 powi -1022\<close> the
  values are the multiples of \<open>2 powi -1074\<close>, and a result that rounds to
  \<open>2 ^ 1024\<close> or more is an infinity.

  \<open>expo x\<close> is the exponent of a positive \<open>x\<close>, the integer \<open>e\<close> with
  \<open>2 powi e \<le> x < 2 powi (e + 1)\<close>, computed from the bit length of the integer part
  of \<open>x\<close> or of \<open>1/x\<close>. \<open>ulp_exp x\<close> is the exponent of the unit in the last
  place at \<open>x\<close>, and \<open>nearest x\<close> is the multiple of that unit nearest to \<open>x\<close>.
\<close>

definition expo :: "real \<Rightarrow> int" where
  "expo x = (if 1 \<le> x then bitlen \<lfloor>x\<rfloor> - 1 else - bitlen (\<lceil>1 / x\<rceil> - 1))"

definition round_half_even :: "real \<Rightarrow> int" where
  "round_half_even m =
     (if m - of_int \<lfloor>m\<rfloor> < 1 / 2 then \<lfloor>m\<rfloor>
      else if 1 / 2 < m - of_int \<lfloor>m\<rfloor> then \<lfloor>m\<rfloor> + 1
      else if even \<lfloor>m\<rfloor> then \<lfloor>m\<rfloor> else \<lfloor>m\<rfloor> + 1)"

definition ulp_exp :: "real \<Rightarrow> int" where
  "ulp_exp x = max (expo x) (- 1022) - 52"

definition nearest :: "real \<Rightarrow> real" where
  "nearest x = of_int (round_half_even (x / 2 powi ulp_exp x)) * 2 powi ulp_exp x"

definition rnd :: "real \<Rightarrow> jsnum" where
  "rnd x =
     (if x = 0 then Fin 0
      else if 0 < x then (if 2 ^ 1024 \<le> nearest x then PInf else Fin (nearest x))
      else (if 2 ^ 1024 \<le> nearest (- x) then NInf else Fin (- nearest (- x))))"

text \<open>
  The binary64 values are the reals that rounding leaves as they are. A numeric literal
  of the source such as \<open>0.1\<close> denotes \<open>rnd (1/10)\<close>.
\<close>

definition is_double :: "real \<Rightarrow> bool" where
  "is_double x \<longleftrightarrow> rnd x = Fin x"

subsection \<open>Arithmetic\<close>

text \<open>
  Sum, product and quotient of finite numbers are the rounded exact results. The
  special values follow IEEE 754 as JavaScript applies it: NaN absorbs every operation,
  opposite infinities do not add, zero times infinity and the quotients 0/0 and
  infinity/infinity are NaN, and a non-zero finite value divided by zero is an
  infinity. Negation is exact, and \<open>x - y\<close> is \<open>x + (-y)\<close>.
\<close>

fun jadd :: "jsnum \<Rightarrow> jsnum \<Rightarrow> jsnum" where
  "jadd (Fin a) (Fin b) = rnd (a + b)"
| "jadd (Fin a) PInf = PInf"
| "jadd (Fin a) NInf = NInf"
| "jadd PInf (Fin b) = PInf"
| "jadd PInf PInf = PInf"
| "jadd PInf NInf = NaN"
| "jadd NInf (Fin b) = NInf"
| "jadd NInf PInf = NaN"
| "jadd NInf NInf = NInf"
| "jadd NaN y = NaN"
| "jadd x NaN = NaN"

fun jneg :: "jsnum \<Rightarrow> jsnum" where
  "jneg (Fin a) = Fin (- a)"
| "jneg PInf = NInf"
| "jneg NInf = PInf"
| "jneg NaN = NaN"

text \<open>The sign of an infinity scaled by a finite or infinite factor.\<close>

fun inf_of_sign :: "bool \<Rightarrow> jsnum" where
  "inf_of_sign True = PInf"
| "inf_of_sign False = NInf"

fun jmul :: "jsnum \<Rightarrow> jsnum \<Rightarrow> jsnum" where
  "jmul (Fin a) (Fin b) = rnd (a * b)"
| "jmul (Fin a) PInf = (if a = 0 then NaN else inf_of_sign (0 < a))"
| "jmul (Fin a) NInf = (if a = 0 then NaN else inf_of_sign (a < 0))"
| "jmul PInf (Fin b) = (if b = 0 then NaN else inf_of_sign (0 < b))"
| "jmul NInf (Fin b) = (if b = 0 then NaN else inf_of_sign (b < 0))"
| "jmul PInf PInf = PInf"
| "jmul PInf NInf = NInf"
| "jmul NInf PInf = NInf"
| "jmul NInf NInf = PInf"
| "jmul NaN y = NaN"
| "jmul x NaN = NaN"

fun jdiv :: "jsnum \<Rightarrow> jsnum \<Rightarrow> jsnum" where
  "jdiv (Fin a) (Fin b) =
     (if b = 0 then (if a = 0 then NaN else inf_of_sign (0 < a)) else rnd (a / b))"
| "jdiv (Fin a) PInf = Fin 0"
| "jdiv (Fin a) NInf = Fin 0"
| "jdiv PInf (Fin b) = inf_of_sign (0 \<le> b)"
| "jdiv NInf (Fin b) = inf_of_sign (b < 0)"
| "jdiv PInf PInf = NaN"
| "jdiv PInf NInf = NaN"
| "jdiv NInf PInf = NaN"
| "jdiv NInf NInf = NaN"
| "jdiv NaN y = NaN"
| "jdiv x NaN = NaN"

instantiation jsnum :: "{zero, one, plus, uminus, minus, times, inverse}"
begin

definition zero_jsnum :: jsnum where "zero_jsnum = Fin 0"
definition one_jsnum :: jsnum where "one_jsnum = Fin 1"
definition plus_jsnum :: "jsnum \<Rightarrow> jsnum \<Rightarrow> jsnum" where "plus_jsnum x y = jadd x y"
definition uminus_jsnum :: "jsnum \<Rightarrow> jsnum" where "uminus_jsnum x = jneg x"
definition minus_jsnum :: "jsnum \<Rightarrow> jsnum \<Rightarrow> jsnum" where "minus_jsnum x y = jadd x (jneg y)"
definition times_jsnum :: "jsnum \<Rightarrow> jsnum \<Rightarrow> jsnum" where "times_jsnum x y = jmul x y"
definition divide_jsnum :: "jsnum \<Rightarrow> jsnum \<Rightarrow> jsnum" where "divide_jsnum x y = jdiv x y"
definition inverse_jsnum :: "jsnum \<Rightarrow> jsnum" where "inverse_jsnum x = jdiv (Fin 1) x"

instance ..

end

text \<open>
  \<open>ToBoolean\<close> on a number: zero and NaN are falsy, every other number is truthy.
  \<open>isNaN\<close> and the comparison \<open>x > 0\<close> are the ones the summary panel uses.
\<close>

fun truthy :: "jsnum \<Rightarrow> bool" where
  "truthy (Fin a) = (a \<noteq> 0)"
| "truthy PInf = True"
| "truthy NInf = True"
| "truthy NaN = False"

fun isNaN :: "jsnum \<Rightarrow> bool" where
  "isNaN NaN = True"
| "isNaN x = False"

fun isFinite :: "jsnum \<Rightarrow> bool" where
  "isFinite (Fin a) = True"
| "isFinite x = False"

fun jgt :: "jsnum \<Rightarrow> jsnum \<Rightarrow> bool" where
  "jgt (Fin a) (Fin b) = (b < a)"
| "jgt PInf (Fin b) = True"
| "jgt PInf NInf = True"
| "jgt (Fin a) NInf = True"
| "jgt x y = False"

text \<open>
  An optional field (\<open>averagePrice?\<close>, \<open>publicPrice?\<close>, \<open>vat?\<close>) is \<open>None\<close> when
  the property is \<open>undefined\<close>. The source tests such a field by its truthiness, so
  an absent field, a zero and a NaN take the same branch.
\<close>

fun toBoolean :: "jsnum option \<Rightarrow> bool" where
  "toBoolean None = False"
| "toBoolean (Some x) = truthy x"

section \<open>Products\<close>

text \<open>
  Strings of the source are sequences of UTF-16 code units; \<open>str\<close> writes an ASCII
  literal as one.
\<close>

type_synonym jsstring = "nat list"

definition str :: "string \<Rightarrow> jsstring" where
  "str s = map of_char s"

record PriceBreakdown =
  pb_quantity :: jsnum
  pb_unitPrice :: jsnum
  pb_supplier :: jsstring
  pb_stock :: jsnum

record ProductItem =
  id' :: jsstring
  name :: jsstring
  code :: jsstring
  supplier :: jsstring
  quantity :: jsnum
  unitPrice :: jsnum
  priceBreakdowns :: "PriceBreakdown list option"
  averagePrice :: "jsnum option"
  publicPrice :: "jsnum option"
  vat :: "jsnum option"

section \<open>Per-product figures (\<open>ProductRow\<close>)\<close>

text \<open>
  The constants \<open>ProductRow\<close> computes before it renders, each as a function of the
  product. A conditional \<open>x ? a : b\<close> on an optional field is a case on the field
  with the truthiness test inside: the field is read only where it is defined.
\<close>

definition totalPrice :: "ProductItem \<Rightarrow> jsnum" where
  "totalPrice product = quantity product * unitPrice product"

definition savingsVsAverage :: "ProductItem \<Rightarrow> jsnum" where
  "savingsVsAverage product =
     (case averagePrice product of
        Some avg \<Rightarrow> if truthy avg then (avg - unitPrice product) * quantity product else 0
      | None \<Rightarrow> 0)"

definition grossDiscount :: "ProductItem \<Rightarrow> jsnum" where
  "grossDiscount product =
     (case publicPrice product of
        Some pp \<Rightarrow> if truthy pp then pp - unitPrice product else 0
      | None \<Rightarrow> 0)"

definition grossDiscountPercent :: "ProductItem \<Rightarrow> jsnum" where
  "grossDiscountPercent product =
     (case publicPrice product of
        Some pp \<Rightarrow> if truthy pp then (grossDiscount product / pp) * Fin 100 else 0
      | None \<Rightarrow> 0)"

definition netPublicPrice :: "ProductItem \<Rightarrow> jsnum" where
  "netPublicPrice product =
     (case (publicPrice product, vat product) of
        (Some pp, Some v) \<Rightarrow> if truthy pp \<and> truthy v then pp / (1 + v / Fin 100) else 0
      | _ \<Rightarrow> 0)"

definition netDiscount :: "ProductItem \<Rightarrow> jsnum" where
  "netDiscount product =
     (if truthy (netPublicPrice product) then netPublicPrice product - unitPrice product
      else 0)"

definition netDiscountPercent :: "ProductItem \<Rightarrow> jsnum" where
  "netDiscountPercent product =
     (if truthy (netPublicPrice product)
      then (netDiscount product / netPublicPrice product) * Fin 100
      else 0)"

section \<open>Order summary (\<open>OrderConfirmationModal\<close>)\<close>

text \<open>
  \<open>Array.prototype.reduce\<close> with an initial value is a left fold. \<open>new Set(...).size\<close>
  counts the distinct supplier strings. The average discount divides the folded sum by
  \<open>products.filter(p => p.publicPrice).length\<close>, with no test of that length.
\<close>

definition uniqueSuppliers :: "ProductItem list \<Rightarrow> nat" where
  "uniqueSuppliers products = card (set (map supplier products))"

definition totalQuantity :: "ProductItem list \<Rightarrow> jsnum" where
  "totalQuantity products = foldl (\<lambda>sum product. sum + quantity product) 0 products"

definition totalSavingsVsAverage :: "ProductItem list \<Rightarrow> jsnum" where
  "totalSavingsVsAverage products =
     foldl (\<lambda>sum product.
              case averagePrice product of
                Some avg \<Rightarrow>
                  if truthy avg then sum + ((avg - unitPrice product) * quantity product)
                  else sum
              | None \<Rightarrow> sum)
           0 products"

definition discountSum :: "ProductItem list \<Rightarrow> jsnum" where
  "discountSum products =
     foldl (\<lambda>sum product.
              case publicPrice product of
                Some pp \<Rightarrow>
                  if truthy pp then sum + ((pp - unitPrice product) / pp) * Fin 100
                  else sum
              | None \<Rightarrow> sum)
           0 products"

definition eligible :: "ProductItem list \<Rightarrow> ProductItem list" where
  "eligible products = filter (\<lambda>p. toBoolean (publicPrice p)) products"

definition averageDiscountPercent :: "ProductItem list \<Rightarrow> jsnum" where
  "averageDiscountPercent products =
     discountSum products / Fin (real (length (eligible products)))"

text \<open>
  The summary panel shows the "Avg Discount" row under the guard
  \<open>!isNaN(averageDiscountPercent) && averageDiscountPercent > 0\<close>, and the
  "Savings vs Avg" row under \<open>totalSavingsVsAverage > 0\<close>.
\<close>

definition showAvgDiscount :: "ProductItem list \<Rightarrow> bool" where
  "showAvgDiscount products =
     (\<not> isNaN (averageDiscountPercent products) \<and> jgt (averageDiscountPercent products) 0)"

definition showSavingsVsAvg :: "ProductItem list \<Rightarrow> bool" where
  "showSavingsVsAvg products = jgt (totalSavingsVsAverage products) 0"

text \<open>
  \<open>ProductRow\<close> renders the discount chips, and the "Public Price" cells of the
  expanded row, as \<open>{product.publicPrice && (...)}\<close>. The operator \<open>&&\<close> gives
  its left operand when that is falsy, so the expression is \<open>undefined\<close> for an absent
  price, the number itself for a zero or NaN price, which React renders as text, and the
  element otherwise.
\<close>

datatype jsx = JsxUndefined | JsxNumber jsnum | JsxElement

definition publicPriceBlock :: "ProductItem \<Rightarrow> jsx" where
  "publicPriceBlock product =
     (case publicPrice product of
        None \<Rightarrow> JsxUndefined
      | Some pp \<Rightarrow> if truthy pp then JsxElement else JsxNumber pp)"

section \<open>Order form state\<close>

text \<open>
  \<open>orderData\<close> is a JavaScript object: a finite map from property names to values,
  which here are strings and booleans. The handlers build the next state with an object
  spread and one computed key, \<open>{ ...prev, [name]: value }\<close>, so they are map updates
  at whatever name the event carries. An event is its target: \<open>name\<close>, \<open>value\<close>
  and \<open>checked\<close>.
\<close>

datatype jsval = Str jsstring | Bool bool

type_synonym OrderData = "jsstring \<rightharpoonup> jsval"

record ChangeEvent =
  target_name :: jsstring
  target_value :: jsstring
  target_checked :: bool

definition initialOrderData :: "jsstring \<Rightarrow> OrderData" where
  "initialOrderData today =
     [str ''orderName'' \<mapsto> Str [],
      str ''expectedDeliveryDate'' \<mapsto> Str today,
      str ''notes'' \<mapsto> Str [],
      str ''priority'' \<mapsto> Str (str ''urgent''),
      str ''paymentMethod'' \<mapsto> Str (str ''Invoice 30 days''),
      str ''saveAsTemplate'' \<mapsto> Bool False,
      str ''notifyOnDelivery'' \<mapsto> Bool False]"

definition handleChange :: "ChangeEvent \<Rightarrow> OrderData \<Rightarrow> OrderData" where
  "handleChange e prev = prev(target_name e \<mapsto> Str (target_value e))"

definition handleCheckboxChange :: "ChangeEvent \<Rightarrow> OrderData \<Rightarrow> OrderData" where
  "handleCheckboxChange e prev = prev(target_name e \<mapsto> Bool (target_checked e))"

definition handleSelectChange :: "ChangeEvent \<Rightarrow> OrderData \<Rightarrow> OrderData" where
  "handleSelectChange e prev = prev(target_name e \<mapsto> Str (target_value e))"

definition handleRadioChange :: "ChangeEvent \<Rightarrow> OrderData \<Rightarrow> OrderData" where
  "handleRadioChange e prev = prev(str ''priority'' \<mapsto> Str (target_value e))"

subsection \<open>Submit and save draft\<close>

text \<open>
  \<open>String.prototype.trim\<close> removes the ECMAScript white space and line terminator
  code units from both ends: TAB, LF, VT, FF, CR, SPACE, NBSP, U+1680, U+2000 to U+200A,
  U+2028, U+2029, U+202F, U+205F, U+3000 and U+FEFF.
\<close>

definition is_whitespace :: "nat \<Rightarrow> bool" where
  "is_whitespace c =
     (c \<in> {9, 10, 11, 12, 13, 32, 160, 5760, 8232, 8233, 8239, 8287, 12288, 65279}
      \<or> (8192 \<le> c \<and> c \<le> 8202))"

definition trim :: "jsstring \<Rightarrow> jsstring" where
  "trim s = rev (dropWhile is_whitespace (rev (dropWhile is_whitespace s)))"

text \<open>
  The Submit button is rendered with \<open>disabled={!orderData.orderName.trim()}\<close>.
  Calling \<open>trim\<close> on a value that is not a string throws, which the model returns
  as an error. The Save Draft button has no \<open>disabled\<close> attribute.
\<close>

datatype error = TypeError

definition submitDisabled :: "OrderData \<Rightarrow> error + bool" where
  "submitDisabled orderData =
     (case orderData (str ''orderName'') of
        Some (Str s) \<Rightarrow> Inr (trim s = [])
      | _ \<Rightarrow> Inl TypeError)"

definition saveDraftDisabled :: "OrderData \<Rightarrow> bool" where
  "saveDraftDisabled orderData = False"

text \<open>
  The callbacks \<open>onSaveAsDraft\<close>, \<open>onSubmitOrder\<close> and \<open>onClose\<close> are the
  caller's. A click handler is modelled by the calls it makes, in order.
\<close>

datatype callback = OnSaveAsDraft | OnSubmitOrder OrderData | OnClose

definition saveDraftOnClick :: "OrderData \<Rightarrow> callback list" where
  "saveDraftOnClick orderData = [OnSaveAsDraft, OnClose]"

definition submitOnClick :: "OrderData \<Rightarrow> callback list" where
  "submitOnClick orderData = [OnSubmitOrder orderData, OnClose]"

text \<open>Pressing a button runs its click handler unless the button is disabled.\<close>

definition pressSaveDraft :: "OrderData \<Rightarrow> callback list" where
  "pressSaveDraft orderData =
     (if saveDraftDisabled orderData then [] else saveDraftOnClick orderData)"

definition pressSubmit :: "OrderData \<Rightarrow> callback list" where
  "pressSubmit orderData =
     (case submitDisabled orderData of
        Inr False \<Rightarrow> submitOnClick orderData
      | _ \<Rightarrow> [])"

section \<open>Export (\<open>handleExport\<close>)\<close>

text \<open>
  \<open>handleExport\<close> builds one object per product and calls \<open>exportOrderSummary\<close>
  of the export utilities, which are not part of these sources: the model returns the
  arguments of that call. The title is \<open>orderData.orderName || 'Untitled Order'\<close>,
  and the \<open>userRole\<close> property defaults to \<open>'Buyer'\<close>.
\<close>

record OrderExportProduct =
  row_id :: jsstring
  row_name :: jsstring
  row_code :: jsstring
  row_quantity :: jsnum
  row_unitPrice :: jsnum
  row_averagePrice :: "jsnum option"
  row_priceBreakdowns :: "PriceBreakdown list option"
  row_publicPrice :: "jsnum option"
  row_vat :: "jsnum option"

datatype format = Csv | Xlsx

record ExportCall =
  title :: jsval
  rows :: "OrderExportProduct list"
  file_format :: format
  role :: jsstring

fun truthy_val :: "jsval option \<Rightarrow> bool" where
  "truthy_val None = False"
| "truthy_val (Some (Str s)) = (s \<noteq> [])"
| "truthy_val (Some (Bool b)) = b"

definition userRoleOrDefault :: "jsstring option \<Rightarrow> jsstring" where
  "userRoleOrDefault userRole = (case userRole of Some r \<Rightarrow> r | None \<Rightarrow> str ''Buyer'')"

definition exportProduct :: "ProductItem \<Rightarrow> OrderExportProduct" where
  "exportProduct product =
     \<lparr>row_id = id' product,
      row_name = name product,
      row_code = code product,
      row_quantity = quantity product,
      row_unitPrice = unitPrice product,
      row_averagePrice = averagePrice product,
      row_priceBreakdowns = priceBreakdowns product,
      row_publicPrice = publicPrice product,
      row_vat = vat product\<rparr>"

definition handleExport ::
  "OrderData \<Rightarrow> ProductItem list \<Rightarrow> jsstring option \<Rightarrow> format \<Rightarrow> ExportCall" where
  "handleExport orderData products userRole fmt =
     \<lparr>title = (case orderData (str ''orderName'') of
                  Some v \<Rightarrow> if truthy_val (Some v) then v else Str (str ''Untitled Order'')
                | None \<Rightarrow> Str (str ''Untitled Order'')),
      rows = map exportProduct products,
      file_format = fmt,
      role = userRoleOrDefault userRole\<rparr>"

section \<open>Concrete inputs\<close>

text \<open>Two order lines whose figures are computed without rounding.\<close>

definition aspirin :: ProductItem where
  "aspirin =
     \<lparr>id' = str ''p1'', name = str ''Aspirin'', code = str ''A-1'', supplier = str ''Acme'',
      quantity = Fin 2, unitPrice = Fin 5, priceBreakdowns = None, averagePrice = Some (Fin 6),
      publicPrice = Some (Fin 10), vat = Some (Fin 25)\<rparr>"

definition bandage :: ProductItem where
  "bandage =
     \<lparr>id' = str ''p2'', name = str ''Bandage'', code = str ''B-7'', supplier = str ''Medix'',
      quantity = Fin 1, unitPrice = Fin 8, priceBreakdowns = None, averagePrice = Some (Fin 8),
      publicPrice = None, vat = None\<rparr>"

text \<open>
  Three order lines of one unit each, with unit prices 1, 3 and 2, public prices 3, 11
  and 3, and average prices 0.5, 1.3 and 4.2.
\<close>

definition gauze :: ProductItem where
  "gauze =
     \<lparr>id' = str ''p3'', name = str ''Gauze'', code = str ''G-2'', supplier = str ''Acme'',
      quantity = Fin 1, unitPrice = Fin 1, priceBreakdowns = None,
      averagePrice = Some (rnd (1 / 2)), publicPrice = Some (Fin 3), vat = None\<rparr>"

definition syringe :: ProductItem where
  "syringe =
     \<lparr>id' = str ''p4'', name = str ''Syringe'', code = str ''S-9'', supplier = str ''Medix'',
      quantity = Fin 1, unitPrice = Fin 3, priceBreakdowns = None,
      averagePrice = Some (rnd (13 / 10)), publicPrice = Some (Fin 11), vat = None\<rparr>"

definition gloves :: ProductItem where
  "gloves =
     \<lparr>id' = str ''p5'', name = str ''Gloves'', code = str ''L-4'', supplier = str ''Acme'',
      quantity = Fin 1, unitPrice = Fin 2, priceBreakdowns = None,
      averagePrice = Some (rnd (42 / 10)), publicPrice = Some (Fin 3), vat = None\<rparr>"

text \<open>
  Two order lines with extreme figures: a quantity of \<open>2 ^ 53\<close>, and a unit price of
  \<open>2 ^ 1023\<close> against a public price of \<open>1/1024\<close>. All are binary64 values.
\<close>

definition pallet :: ProductItem where
  "pallet = bandage\<lparr>quantity := Fin 9007199254740992\<rparr>"

definition bulk :: ProductItem where
  "bulk = aspirin\<lparr>unitPrice := Fin (2 ^ 1023), publicPrice := Some (Fin (1 / 1024))\<rparr>"

text \<open>
  A change event of the "Order Name" text field, and the form as it stands after the
  user has typed a name into it on 31 January 2025.
\<close>

definition orderNameEvent :: "jsstring \<Rightarrow> ChangeEvent" where
  "orderNameEvent v =
     \<lparr>target_name = str ''orderName'', target_value = v, target_checked = False\<rparr>"

definition orderNamed :: "jsstring \<Rightarrow> OrderData" where
  "orderNamed v = handleChange (orderNameEvent v) (initialOrderData (str ''2025-01-31''))"

section \<open>Predicates of the statements\<close>

text \<open>
  A number is canonical when it is a binary64 value: an infinity, NaN, or a finite value
  that rounding leaves as it is. Every result of an addition is canonical.
\<close>

fun canonical :: "jsnum \<Rightarrow> bool" where
  "canonical (Fin a) = is_double a"
| "canonical x = True"

text \<open>
  The magnitudes of an ordinary order: a public price that is absent, zero, or between
  a millionth and a million millions, and a VAT rate that is absent or between 0 and
  1000 percent.
\<close>

fun priceInRange :: "jsnum option \<Rightarrow> bool" where
  "priceInRange None = True"
| "priceInRange (Some (Fin a)) = (a = 0 \<or> (1 / 10 ^ 6 \<le> a \<and> a \<le> 10 ^ 12))"
| "priceInRange (Some x) = False"

fun rateInRange :: "jsnum option \<Rightarrow> bool" where
  "rateInRange None = True"
| "rateInRange (Some (Fin b)) = (0 \<le> b \<and> b \<le> 1000)"
| "rateInRange (Some x) = False"

section \<open>Properties\<close>

subsection \<open>Evaluating a rounding\<close>

text \<open>
  The rounding of a concrete number is computed by the simplifier from the definitions
  and the bit length of a numeral.
\<close>

lemma bitlen_numeral_Bit0: "bitlen (numeral (num.Bit0 n)) = bitlen (numeral n) + 1"
  by (subst compute_bitlen) simp

lemma bitlen_numeral_Bit1: "bitlen (numeral (num.Bit1 n)) = bitlen (numeral n) + 1"
  by (subst compute_bitlen) simp

lemma bitlen_1: "bitlen 1 = 1"
  by (subst compute_bitlen) simp

lemmas rnd_eval =
  rnd_def nearest_def ulp_exp_def expo_def round_half_even_def
  bitlen_numeral_Bit0 bitlen_numeral_Bit1 bitlen_1

lemmas jsnum_arith =
  zero_jsnum_def one_jsnum_def plus_jsnum_def uminus_jsnum_def minus_jsnum_def
  times_jsnum_def divide_jsnum_def

subsection \<open>The exponent\<close>

lemma expo_lower: "0 < x \<Longrightarrow> 2 powi expo x \<le> x"
proof (cases "1 \<le> x")
  case True
  then have m: "0 < \<lfloor>x\<rfloor>" by simp
  from bitlen_bounds [OF m] have "2 ^ nat (bitlen \<lfloor>x\<rfloor> - 1) \<le> \<lfloor>x\<rfloor>" by simp
  then have le: "real_of_int (2 ^ nat (bitlen \<lfloor>x\<rfloor> - 1)) \<le> real_of_int \<lfloor>x\<rfloor>"
    by (simp only: of_int_le_iff)
  have "2 ^ nat (bitlen \<lfloor>x\<rfloor> - 1) = real_of_int (2 ^ nat (bitlen \<lfloor>x\<rfloor> - 1))" by simp
  also note le
  also have "real_of_int \<lfloor>x\<rfloor> \<le> x" by simp
  finally have "2 ^ nat (bitlen \<lfloor>x\<rfloor> - 1) \<le> x" .
  moreover from m have "1 \<le> bitlen \<lfloor>x\<rfloor>" by (auto simp: bitlen_alt_def)
  ultimately show ?thesis using True
    by (simp add: expo_def power_int_def)
next
  case False
  assume x: "0 < x"
  with False have y: "1 < 1 / x" by simp
  define m where "m = \<lceil>1 / x\<rceil> - 1"
  from y have m: "0 < m" unfolding m_def by linarith
  from bitlen_bounds [OF m] have "m < 2 ^ nat (bitlen m)" by simp
  then have "m + 1 \<le> 2 ^ nat (bitlen m)" by simp
  then have le: "real_of_int (m + 1) \<le> real_of_int (2 ^ nat (bitlen m))"
    by (simp only: of_int_le_iff)
  have "1 / x \<le> real_of_int (m + 1)" unfolding m_def by simp
  also note le
  also have "real_of_int (2 ^ nat (bitlen m)) = 2 ^ nat (bitlen m)" by simp
  finally have "1 / x \<le> 2 ^ nat (bitlen m)" .
  with x have "1 / 2 ^ nat (bitlen m) \<le> x"
    by (simp add: field_simps)
  moreover from m have "1 \<le> bitlen m" by (auto simp: bitlen_alt_def)
  ultimately show ?thesis using False
    by (simp add: expo_def m_def [symmetric] power_int_def field_simps)
qed

lemma expo_upper: "0 < x \<Longrightarrow> x < 2 powi (expo x + 1)"
proof (cases "1 \<le> x")
  case True
  then have m: "0 < \<lfloor>x\<rfloor>" by simp
  from bitlen_bounds [OF m] have "\<lfloor>x\<rfloor> < 2 ^ nat (bitlen \<lfloor>x\<rfloor>)" by simp
  then have "\<lfloor>x\<rfloor> + 1 \<le> 2 ^ nat (bitlen \<lfloor>x\<rfloor>)" by simp
  then have le: "real_of_int (\<lfloor>x\<rfloor> + 1) \<le> real_of_int (2 ^ nat (bitlen \<lfloor>x\<rfloor>))"
    by (simp only: of_int_le_iff)
  have "x < real_of_int (\<lfloor>x\<rfloor> + 1)" by linarith
  also note le
  also have "real_of_int (2 ^ nat (bitlen \<lfloor>x\<rfloor>)) = 2 ^ nat (bitlen \<lfloor>x\<rfloor>)" by simp
  finally have "x < 2 ^ nat (bitlen \<lfloor>x\<rfloor>)" .
  moreover have "0 \<le> bitlen \<lfloor>x\<rfloor>" by (rule bitlen_nonneg)
  ultimately show ?thesis using True
    by (simp add: expo_def power_int_def)
next
  case False
  assume x: "0 < x"
  with False have y: "1 < 1 / x" by simp
  define m where "m = \<lceil>1 / x\<rceil> - 1"
  from y have m: "0 < m" unfolding m_def by linarith
  from m have b: "1 \<le> bitlen m" by (auto simp: bitlen_alt_def)
  from bitlen_bounds [OF m] have "2 ^ nat (bitlen m - 1) \<le> m" by simp
  then have le: "real_of_int (2 ^ nat (bitlen m - 1)) \<le> real_of_int m"
    by (simp only: of_int_le_iff)
  have "2 ^ nat (bitlen m - 1) = real_of_int (2 ^ nat (bitlen m - 1))" by simp
  also note le
  also have "real_of_int m < 1 / x" unfolding m_def by linarith
  finally have "2 ^ nat (bitlen m - 1) < 1 / x" .
  with x have "x < 1 / 2 ^ nat (bitlen m - 1)"
    by (simp add: field_simps)
  moreover have "(2::real) powi (- bitlen m + 1) = 1 / 2 ^ nat (bitlen m - 1)"
    using b by (simp add: power_int_def field_simps nat_diff_distrib)
  ultimately show ?thesis using False
    by (simp add: expo_def m_def [symmetric])
qed

lemma expo_less: "0 < x \<Longrightarrow> x < 2 powi k \<Longrightarrow> expo x < k"
proof -
  assume x: "0 < x" and k: "x < 2 powi k"
  from expo_lower [OF x] k have "(2::real) powi expo x < 2 powi k" by simp
  then show ?thesis
    by (metis linorder_not_less one_le_numeral power_int_increasing)
qed

lemma expo_ge: "2 powi k \<le> x \<Longrightarrow> k \<le> expo x"
proof -
  assume k: "2 powi k \<le> x"
  have "(0::real) < 2 powi k" by (simp add: zero_less_power_int)
  with k have x: "0 < x" by linarith
  from expo_upper [OF x] k have "(2::real) powi k < 2 powi (expo x + 1)" by simp
  then have "k < expo x + 1"
    by (metis linorder_not_less one_le_numeral power_int_increasing)
  then show ?thesis by simp
qed

subsection \<open>Rounding\<close>

text \<open>
  Rounding an integer gives it back, a rounding stays within a power of two that bounds
  its argument, and a rounded value is a binary64 value: rounding it again changes
  nothing.
\<close>

lemma rhe_of_int: "round_half_even (of_int k) = k"
  by (simp add: round_half_even_def)

lemma rhe_le: "m \<le> of_int N \<Longrightarrow> round_half_even m \<le> N"
proof (cases "m = of_int N")
  case True
  then show ?thesis by (simp add: rhe_of_int)
next
  case False
  assume "m \<le> of_int N"
  with False have "m < of_int N" by simp
  then have "\<lfloor>m\<rfloor> < N" by linarith
  then show ?thesis by (simp add: round_half_even_def)
qed

lemma rhe_ge: "of_int N \<le> m \<Longrightarrow> N \<le> round_half_even m"
proof -
  assume "of_int N \<le> m"
  then have "N \<le> \<lfloor>m\<rfloor>" by linarith
  then show ?thesis by (simp add: round_half_even_def)
qed

lemma ulp_exp_ge: "- 1074 \<le> ulp_exp x"
  by (simp add: ulp_exp_def)

lemma nearest_0: "nearest 0 = 0"
  by (simp add: nearest_def rhe_of_int [of 0, simplified])

lemma nearest_nonneg: "0 \<le> x \<Longrightarrow> 0 \<le> nearest x"
proof -
  assume "0 \<le> x"
  then have "of_int 0 \<le> x / 2 powi ulp_exp x" by (simp add: zero_less_power_int)
  then have "0 \<le> round_half_even (x / 2 powi ulp_exp x)" by (rule rhe_ge)
  then show ?thesis by (simp add: nearest_def zero_less_power_int)
qed

lemma nearest_exact:
  assumes "x = of_int n * 2 powi t" "ulp_exp x \<le> t"
  shows "nearest x = x"
proof -
  define s where "s = ulp_exp x"
  from assms(2) have d: "0 \<le> t - s" by (simp add: s_def)
  have "x / 2 powi s = of_int n * (2 powi t / 2 powi s)" by (simp add: assms(1))
  also have "2 powi t / 2 powi s = (2::real) powi (t - s)"
    by (simp add: power_int_diff)
  also have "\<dots> = 2 ^ nat (t - s)" using d by (simp add: power_int_def)
  also have "of_int n * 2 ^ nat (t - s) = real_of_int (n * 2 ^ nat (t - s))" by simp
  finally have "round_half_even (x / 2 powi s) = n * 2 ^ nat (t - s)"
    by (simp only: rhe_of_int)
  then have "nearest x = real_of_int (n * 2 ^ nat (t - s)) * 2 powi s"
    by (simp add: nearest_def s_def)
  also have "\<dots> = of_int n * (2 powi (t - s) * 2 powi s)"
    using d by (simp add: power_int_def)
  also have "2 powi (t - s) * 2 powi s = (2::real) powi t"
    by (simp add: power_int_add [symmetric])
  finally show ?thesis by (simp add: assms(1))
qed

lemma nearest_upper:
  assumes "0 < x" "x < 2 powi k" "- 1021 \<le> k"
  shows "nearest x \<le> 2 powi k"
proof -
  define s where "s = ulp_exp x"
  from expo_less [OF assms(1,2)] assms(3) have s: "s \<le> k - 53"
    by (simp add: s_def ulp_exp_def)
  then have d: "0 \<le> k - s" by simp
  have p: "(0::real) < 2 powi s" by (simp add: zero_less_power_int)
  have "x / 2 powi s < 2 powi k / 2 powi s"
    using assms(2) p by (simp add: divide_strict_right_mono)
  also have "2 powi k / 2 powi s = (2::real) powi (k - s)" by (simp add: power_int_diff)
  also have "\<dots> = real_of_int (2 ^ nat (k - s))" using d by (simp add: power_int_def)
  finally have "round_half_even (x / 2 powi s) \<le> 2 ^ nat (k - s)"
    by (intro rhe_le) simp
  then have "real_of_int (round_half_even (x / 2 powi s)) \<le> real_of_int (2 ^ nat (k - s))"
    by (simp only: of_int_le_iff)
  then have "nearest x \<le> real_of_int (2 ^ nat (k - s)) * 2 powi s"
    using p by (simp add: nearest_def s_def mult_right_mono)
  also have "real_of_int (2 ^ nat (k - s)) = 2 powi (k - s)" using d by (simp add: power_int_def)
  also have "2 powi (k - s) * 2 powi s = (2::real) powi k"
    by (simp add: power_int_add [symmetric])
  finally show ?thesis .
qed

lemma nearest_lower:
  assumes "2 powi k \<le> x" "- 1022 \<le> k"
  shows "2 powi k \<le> nearest x"
proof -
  define s where "s = ulp_exp x"
  from expo_ge [OF assms(1)] assms(2) have e: "k \<le> expo x" "s = expo x - 52"
    by (simp_all add: s_def ulp_exp_def)
  have "(0::real) < 2 powi k" by (simp add: zero_less_power_int)
  with assms(1) have x: "0 < x" by linarith
  have p: "(0::real) < 2 powi s" by (simp add: zero_less_power_int)
  have "real_of_int (2 ^ 52) = 2 powi (expo x - s)" by (simp add: e(2))
  also have "\<dots> = 2 powi expo x / 2 powi s" by (simp add: power_int_diff)
  also have "\<dots> \<le> x / 2 powi s"
    using expo_lower [OF x] p by (simp add: divide_right_mono)
  finally have "2 ^ 52 \<le> round_half_even (x / 2 powi s)" by (rule rhe_ge)
  then have "real_of_int (2 ^ 52) \<le> real_of_int (round_half_even (x / 2 powi s))"
    by (simp only: of_int_le_iff)
  then have "real_of_int (2 ^ 52) * 2 powi s \<le> nearest x"
    using p by (simp add: nearest_def s_def mult_right_mono)
  moreover have "real_of_int (2 ^ 52) * 2 powi s = 2 powi expo x"
    by (simp add: e(2) power_int_diff)
  moreover have "(2::real) powi k \<le> 2 powi expo x"
    using e(1) by (simp add: power_int_increasing)
  ultimately show ?thesis by linarith
qed

lemma nearest_idem: "0 < x \<Longrightarrow> nearest (nearest x) = nearest x"
proof -
  assume x: "0 < x"
  define s where "s = ulp_exp x"
  define N where "N = round_half_even (x / 2 powi s)"
  have y: "nearest x = of_int N * 2 powi s" by (simp add: nearest_def s_def N_def)
  have p: "(0::real) < 2 powi s" by (simp add: zero_less_power_int)
  have s53: "expo x + 1 \<le> s + 53" by (simp add: s_def ulp_exp_def)
  have "x < 2 powi (expo x + 1)" using x by (rule expo_upper)
  also have "\<dots> \<le> 2 powi (s + 53)" using s53 by (simp add: power_int_increasing)
  finally have "x / 2 powi s < 2 powi (s + 53) / 2 powi s"
    using p by (simp add: divide_strict_right_mono)
  also have "2 powi (s + 53) / 2 powi s = real_of_int (2 ^ 53)" by (simp add: power_int_add)
  finally have N53: "N \<le> 2 ^ 53" unfolding N_def by (intro rhe_le) simp
  have "of_int 0 \<le> x / 2 powi s" using x p by simp
  then have N0: "0 \<le> N" unfolding N_def by (rule rhe_ge)
  consider "N = 0" | "0 < N" "N < 2 ^ 53" | "N = 2 ^ 53" using N0 N53 by linarith
  then show ?thesis
  proof cases
    case 1
    then show ?thesis by (simp add: y nearest_0)
  next
    case 2
    then have pos: "0 < nearest x" using p by (simp add: y)
    from 2 have "real_of_int N < real_of_int (2 ^ 53)" by (simp only: of_int_less_iff)
    then have "nearest x < real_of_int (2 ^ 53) * 2 powi s"
      using p by (simp add: y mult_strict_right_mono)
    also have "real_of_int (2 ^ 53) * 2 powi s = 2 powi (s + 53)"
      by (simp add: power_int_add)
    finally have "expo (nearest x) < s + 53" using pos by (intro expo_less)
    with ulp_exp_ge [of x] have "ulp_exp (nearest x) \<le> s"
      by (simp add: ulp_exp_def s_def)
    with y show ?thesis by (rule nearest_exact)
  next
    case 3
    then have y': "nearest x = of_int (2 ^ 52) * 2 powi (s + 1)"
      by (simp add: y power_int_add)
    have pos: "0 < nearest x" using p by (simp add: y 3)
    have "nearest x = 2 powi (s + 53)" by (simp add: y 3 power_int_add)
    also have "\<dots> < 2 powi (s + 54)" by (simp add: power_int_strict_increasing)
    finally have "expo (nearest x) < s + 54" using pos by (intro expo_less)
    with ulp_exp_ge [of x] have "ulp_exp (nearest x) \<le> s + 1"
      by (simp add: ulp_exp_def s_def)
    with y' show ?thesis by (rule nearest_exact)
  qed
qed

lemma nearest_int:
  assumes "0 < n" "n \<le> 2 ^ 53"
  shows "nearest (of_int n) = of_int n"
proof (cases "n = 2 ^ 53")
  case True
  have x: "real_of_int n = of_int (2 ^ 52) * 2 powi 1" by (simp add: True)
  have "real_of_int n < 2 powi 54" by (simp add: True)
  then have "expo (real_of_int n) < 54" using assms(1) by (intro expo_less) simp_all
  then have "ulp_exp (real_of_int n) \<le> 1" by (simp add: ulp_exp_def)
  with x show ?thesis by (rule nearest_exact)
next
  case False
  with assms(2) have "n < 2 ^ 53" by simp
  then have "real_of_int n < real_of_int (2 ^ 53)" by (simp only: of_int_less_iff)
  then have "real_of_int n < 2 powi 53" by simp
  then have "expo (real_of_int n) < 53" using assms(1) by (intro expo_less) simp_all
  then have u: "ulp_exp (real_of_int n) \<le> 0" by (simp add: ulp_exp_def)
  have "real_of_int n = of_int n * 2 powi 0" by simp
  then show ?thesis using u by (rule nearest_exact)
qed

lemma rnd_idem: "rnd x = Fin y \<Longrightarrow> is_double y"
proof -
  assume r: "rnd x = Fin y"
  consider "x = 0" | "0 < x" | "x < 0" by linarith
  then show ?thesis
  proof cases
    case 1
    with r show ?thesis by (simp add: rnd_def is_double_def)
  next
    case 2
    with r have y: "y = nearest x" "\<not> 2 ^ 1024 \<le> nearest x"
      by (auto simp: rnd_def split: if_splits)
    from nearest_nonneg [of x] 2 have "0 \<le> y" by (simp add: y)
    then consider "y = 0" | "0 < y" by linarith
    then show ?thesis
    proof cases
      case 1
      then show ?thesis by (simp add: rnd_def is_double_def)
    next
      case 2
      from nearest_idem [OF \<open>0 < x\<close>] have "nearest y = y" by (simp add: y)
      with 2 y show ?thesis by (simp add: rnd_def is_double_def)
    qed
  next
    case 3
    with r have y: "y = - nearest (- x)" "\<not> 2 ^ 1024 \<le> nearest (- x)"
      by (auto simp: rnd_def split: if_splits)
    from nearest_nonneg [of "- x"] 3 have "y \<le> 0" by (simp add: y)
    then consider "y = 0" | "y < 0" by linarith
    then show ?thesis
    proof cases
      case 1
      then show ?thesis by (simp add: rnd_def is_double_def)
    next
      case 2
      from 3 have "0 < - x" by simp
      from nearest_idem [OF this] have "nearest (- y) = - y" by (simp add: y)
      with 2 y show ?thesis by (simp add: rnd_def is_double_def)
    qed
  qed
qed

lemma is_double_int: "\<bar>n\<bar> \<le> 2 ^ 53 \<Longrightarrow> is_double (of_int n)"
proof -
  assume n: "\<bar>n\<bar> \<le> 2 ^ 53"
  have big: "real_of_int (2 ^ 53) < 2 ^ 1024" by simp
  consider "n = 0" | "0 < n" | "n < 0" by linarith
  then show ?thesis
  proof cases
    case 1
    then show ?thesis by (simp add: is_double_def rnd_def)
  next
    case 2
    with n have "nearest (of_int n) = of_int n" by (intro nearest_int) simp_all
    moreover from 2 n have "real_of_int n \<le> real_of_int (2 ^ 53)"
      by (simp only: of_int_le_iff)
    ultimately show ?thesis using 2 big by (simp add: is_double_def rnd_def)
  next
    case 3
    with n have "nearest (of_int (- n)) = of_int (- n)" by (intro nearest_int) simp_all
    moreover from 3 n have "real_of_int (- n) \<le> real_of_int (2 ^ 53)"
      by (simp only: of_int_le_iff)
    ultimately show ?thesis using 3 big by (simp add: is_double_def rnd_def)
  qed
qed

subsection \<open>Bounds of a rounding\<close>

text \<open>
  A rounding whose argument is below a power of two in size is finite and within that
  power of two, and it overflows from \<open>2 ^ 1024\<close> on.
\<close>

lemma pow_1023: "(2::real) powi k \<le> 2 powi 1023" if "k \<le> 1023"
  using that by (intro power_int_increasing) simp_all

lemma rnd_nonneg_bound:
  assumes "0 \<le> x" "x < 2 powi k" "- 1021 \<le> k" "k \<le> 1023"
  shows "\<exists>y. rnd x = Fin y \<and> 0 \<le> y \<and> y \<le> 2 powi k"
proof (cases "x = 0")
  case True
  then show ?thesis by (simp add: rnd_def zero_less_power_int less_imp_le)
next
  case False
  with assms(1) have x: "0 < x" by simp
  from nearest_upper [OF x assms(2,3)] have u: "nearest x \<le> 2 powi k" .
  also have "(2::real) powi k \<le> 2 powi 1023" using assms(4) by (rule pow_1023)
  also have "(2::real) powi 1023 < 2 ^ 1024" by simp
  finally have "\<not> 2 ^ 1024 \<le> nearest x" by simp
  with x have "rnd x = Fin (nearest x)" by (simp add: rnd_def)
  with u nearest_nonneg [OF assms(1)] show ?thesis by simp
qed

lemma rnd_bound:
  assumes "\<bar>x\<bar> < 2 powi k" "- 1021 \<le> k" "k \<le> 1023"
  shows "\<exists>y. rnd x = Fin y \<and> \<bar>y\<bar> \<le> 2 powi k"
proof (cases "0 \<le> x")
  case True
  with assms have "\<exists>y. rnd x = Fin y \<and> 0 \<le> y \<and> y \<le> 2 powi k"
    by (intro rnd_nonneg_bound) simp_all
  then show ?thesis by auto
next
  case False
  then have x: "0 < - x" by simp
  with assms(1) have "- x < 2 powi k" by simp
  from nearest_upper [OF x this assms(2)] have u: "nearest (- x) \<le> 2 powi k" .
  also have "(2::real) powi k \<le> 2 powi 1023" using assms(3) by (rule pow_1023)
  also have "(2::real) powi 1023 < 2 ^ 1024" by simp
  finally have "\<not> 2 ^ 1024 \<le> nearest (- x)" by simp
  with False have "rnd x = Fin (- nearest (- x))" by (simp add: rnd_def)
  moreover have "0 \<le> nearest (- x)" using x by (intro nearest_nonneg) simp
  ultimately show ?thesis using u by simp
qed

lemma rnd_pos_bound:
  assumes "2 powi j \<le> x" "x < 2 powi k" "- 1022 \<le> j" "k \<le> 1023"
  shows "\<exists>y. rnd x = Fin y \<and> 2 powi j \<le> y \<and> y \<le> 2 powi k"
proof -
  have "(0::real) < 2 powi j" by (simp add: zero_less_power_int)
  with assms(1) have x: "0 < x" by linarith
  from assms(1,2) have "(2::real) powi j < 2 powi k" by linarith
  then have "j < k"
    by (metis linorder_not_less one_le_numeral power_int_increasing)
  with assms(3) have k: "- 1021 \<le> k" by simp
  from nearest_upper [OF x assms(2) k] have u: "nearest x \<le> 2 powi k" .
  also have "(2::real) powi k \<le> 2 powi 1023" using assms(4) by (rule pow_1023)
  also have "(2::real) powi 1023 < 2 ^ 1024" by simp
  finally have "\<not> 2 ^ 1024 \<le> nearest x" by simp
  with x have "rnd x = Fin (nearest x)" by (simp add: rnd_def)
  with u nearest_lower [OF assms(1,3)] show ?thesis by simp
qed

lemma rnd_overflow: "2 ^ 1024 \<le> x \<Longrightarrow> rnd (- x) = NInf"
proof -
  assume x: "2 ^ 1024 \<le> x"
  then have "(2::real) powi 1024 \<le> x" by simp
  then have "2 powi 1024 \<le> nearest x" by (rule nearest_lower) simp
  then have "2 ^ 1024 \<le> nearest x" by simp
  moreover have "0 < x" using x by (rule less_le_trans [rotated]) simp
  ultimately show ?thesis by (simp add: rnd_def)
qed

subsection \<open>Canonical numbers and the reducers of the summary\<close>

text \<open>
  Adding zero to a canonical number changes nothing, so a \<open>reduce\<close> that skips a
  product is the same as one that adds 0 for it: each \<open>reduce\<close> of the summary is the
  left-to-right sum of one term per product.
\<close>

lemma canonical_rnd: "canonical (rnd x)"
  by (cases "rnd x") (simp_all add: rnd_idem)

lemma canonical_jadd: "canonical (jadd x y)"
  by (cases x; cases y) (simp_all add: canonical_rnd)

lemma jadd_zero_right: "canonical x \<Longrightarrow> jadd x (Fin 0) = x"
  by (cases x) (simp_all add: is_double_def)

lemma is_double_0: "is_double 0"
  by (simp add: is_double_def rnd_def)

lemma savings_fold:
  assumes "canonical acc"
  shows "foldl (\<lambda>sum product.
              case averagePrice product of
                Some avg \<Rightarrow>
                  if truthy avg then sum + ((avg - unitPrice product) * quantity product)
                  else sum
              | None \<Rightarrow> sum) acc ps
         = foldl (\<lambda>sum product. sum + savingsVsAverage product) acc ps"
  using assms
proof (induction ps arbitrary: acc)
  case Nil
  show ?case by simp
next
  case (Cons p ps)
  have c: "canonical (acc + t)" for t
    by (simp add: plus_jsnum_def canonical_jadd)
  have z: "acc + 0 = acc"
    using Cons.prems by (simp add: plus_jsnum_def zero_jsnum_def jadd_zero_right)
  show ?case
  proof (cases "toBoolean (averagePrice p)")
    case True
    then obtain avg where "averagePrice p = Some avg" "truthy avg"
      by (cases "averagePrice p") simp_all
    then show ?thesis
      by (simp add: savingsVsAverage_def Cons.IH [OF c])
  next
    case False
    then have "savingsVsAverage p = 0"
      by (cases "averagePrice p") (simp_all add: savingsVsAverage_def)
    with False show ?thesis
      by (cases "averagePrice p") (simp_all add: z Cons.IH [OF Cons.prems])
  qed
qed

lemma totalSavingsVsAverage_terms:
  "totalSavingsVsAverage ps = foldl (+) 0 (map savingsVsAverage ps)"
  unfolding totalSavingsVsAverage_def foldl_map
  by (rule savings_fold) (simp add: zero_jsnum_def is_double_0)

lemma discount_fold:
  "foldl (\<lambda>sum product.
              case publicPrice product of
                Some pp \<Rightarrow>
                  if truthy pp then sum + ((pp - unitPrice product) / pp) * Fin 100
                  else sum
              | None \<Rightarrow> sum) acc ps
   = foldl (\<lambda>sum product. sum + grossDiscountPercent product) acc (eligible ps)"
proof (induction ps arbitrary: acc)
  case Nil
  show ?case by (simp add: eligible_def)
next
  case (Cons p ps)
  show ?case
  proof (cases "toBoolean (publicPrice p)")
    case True
    then obtain pp where "publicPrice p = Some pp" "truthy pp"
      by (cases "publicPrice p") simp_all
    then show ?thesis
      using Cons.IH
      by (simp add: eligible_def grossDiscountPercent_def grossDiscount_def)
  next
    case False
    then show ?thesis
      using Cons.IH by (cases "publicPrice p") (simp_all add: eligible_def)
  qed
qed

lemma averageDiscountPercent_mean:
  "averageDiscountPercent ps
   = foldl (+) 0 (map grossDiscountPercent (eligible ps)) / Fin (real (length (eligible ps)))"
  by (simp add: averageDiscountPercent_def discountSum_def discount_fold foldl_map)

lemma eligible_skip:
  "\<not> toBoolean (publicPrice p) \<Longrightarrow> eligible (xs @ p # ys) = eligible (xs @ ys)"
  by (simp add: eligible_def)

subsection \<open>Average discount over an empty eligible set\<close>

lemma discountSum_no_eligible:
  assumes "\<forall>p\<in>set ps. \<not> toBoolean (publicPrice p)"
  shows "foldl (\<lambda>sum product.
                  case publicPrice product of
                    Some pp \<Rightarrow>
                      if truthy pp then sum + ((pp - unitPrice product) / pp) * Fin 100
                      else sum
                  | None \<Rightarrow> sum)
               acc ps = acc"
  using assms by (induction ps arbitrary: acc) (auto split: option.splits)

text \<open>
  Claim C1, as the spec states it, asks that a product list in which no product has a
  \<open>publicPrice\<close> gives a "not applicable" value for \<open>averageDiscountPercent\<close> and
  never NaN. The computation has no such test: for the one-line order \<open>[bandage]\<close>,
  whose product has no \<open>publicPrice\<close>, it divides 0 by 0 and the result is NaN.
\<close>

theorem averageDiscountPercent_no_publicPrice_counterexample:
  "publicPrice bandage = None \<and> averageDiscountPercent [bandage] = NaN"
  by (simp add: bandage_def averageDiscountPercent_def discountSum_def eligible_def jsnum_arith)

text \<open>
  Claim C1, amended: for every product list in which no product has a truthy
  \<open>publicPrice\<close> (absent, zero or NaN), the computed \<open>averageDiscountPercent\<close> is NaN,
  and the guard of the summary panel, \<open>!isNaN(...) && ... > 0\<close>, keeps the
  "Avg Discount" row off the display. The empty eligible set is handled where the value
  is shown, not where it is computed.
\<close>

theorem averageDiscountPercent_no_eligible_is_NaN:
  assumes "\<forall>p\<in>set products. \<not> toBoolean (publicPrice p)"
  shows "averageDiscountPercent products = NaN \<and> \<not> showAvgDiscount products"
proof -
  have s: "discountSum products = Fin 0"
    unfolding discountSum_def using assms
    by (simp add: discountSum_no_eligible zero_jsnum_def)
  have "eligible products = []"
    unfolding eligible_def using assms by (simp add: filter_empty_conv)
  then have "averageDiscountPercent products = NaN"
    by (simp add: averageDiscountPercent_def s divide_jsnum_def)
  then show ?thesis by (simp add: showAvgDiscount_def)
qed

theorem averageDiscountPercent_no_eligible_is_NaN_witness:
  "publicPrice bandage = None \<and> averageDiscountPercent [bandage] = NaN
   \<and> \<not> showAvgDiscount [bandage]"
  using averageDiscountPercent_no_eligible_is_NaN [of "[bandage]"]
  by (simp add: bandage_def)

subsection \<open>Net public price\<close>

text \<open>
  Claim C2, as the spec states it, asks for \<open>publicPrice / (1 + vat/100)\<close> whenever
  both fields are present. The source tests the fields by truthiness, so a product with
  \<open>publicPrice = 10\<close> and a present \<open>vat = 0\<close> gets 0, not 10.
\<close>

theorem netPublicPrice_zero_vat_counterexample:
  "publicPrice (aspirin\<lparr>vat := Some 0\<rparr>) = Some (Fin 10)
   \<and> vat (aspirin\<lparr>vat := Some 0\<rparr>) = Some 0
   \<and> netPublicPrice (aspirin\<lparr>vat := Some 0\<rparr>) = 0
   \<and> Fin 10 / (1 + 0 / Fin 100) = Fin 10
   \<and> netPublicPrice (aspirin\<lparr>vat := Some 0\<rparr>) \<noteq> Fin 10 / (1 + 0 / Fin 100)"
  by (simp add: aspirin_def netPublicPrice_def jsnum_arith rnd_eval)

text \<open>
  Claim C2, amended: \<open>netPublicPrice\<close> equals \<open>publicPrice / (1 + vat/100)\<close>, as
  binary64 computes it, whenever both \<open>publicPrice\<close> and \<open>vat\<close> are present and
  truthy (neither zero nor NaN), and equals the 0 sentinel whenever either field is
  absent, zero or NaN; partial inputs never yield a computed value. Where none of the
  three operations rounds, the result is the real number \<open>publicPrice / (1 + vat/100)\<close>:
  the rate is a percentage.
\<close>

theorem netPublicPrice_truthy_fields:
  "(\<forall>pp v. publicPrice p = Some pp \<and> vat p = Some v \<and> truthy pp \<and> truthy v
            \<longrightarrow> netPublicPrice p = pp / (1 + v / Fin 100))
   \<and> (\<forall>a b. publicPrice p = Some (Fin a) \<and> vat p = Some (Fin b)
              \<and> a \<noteq> 0 \<and> b \<noteq> 0 \<and> b \<noteq> - 100
              \<and> is_double (b / 100) \<and> is_double (1 + b / 100)
              \<and> is_double (a / (1 + b / 100))
            \<longrightarrow> netPublicPrice p = Fin (a / (1 + b / 100)))
   \<and> (\<not> toBoolean (publicPrice p) \<or> \<not> toBoolean (vat p) \<longrightarrow> netPublicPrice p = 0)"
proof -
  have "\<forall>pp v. publicPrice p = Some pp \<and> vat p = Some v \<and> truthy pp \<and> truthy v
            \<longrightarrow> netPublicPrice p = pp / (1 + v / Fin 100)"
    by (simp add: netPublicPrice_def)
  moreover have "\<forall>a b. publicPrice p = Some (Fin a) \<and> vat p = Some (Fin b)
              \<and> a \<noteq> 0 \<and> b \<noteq> 0 \<and> b \<noteq> - 100
              \<and> is_double (b / 100) \<and> is_double (1 + b / 100)
              \<and> is_double (a / (1 + b / 100))
            \<longrightarrow> netPublicPrice p = Fin (a / (1 + b / 100))"
  proof (intro allI impI)
    fix a b :: real
    assume h: "publicPrice p = Some (Fin a) \<and> vat p = Some (Fin b)
              \<and> a \<noteq> 0 \<and> b \<noteq> 0 \<and> b \<noteq> - 100
              \<and> is_double (b / 100) \<and> is_double (1 + b / 100)
              \<and> is_double (a / (1 + b / 100))"
    then have "1 + b / 100 \<noteq> 0" by simp
    with h show "netPublicPrice p = Fin (a / (1 + b / 100))"
      by (simp add: netPublicPrice_def jsnum_arith is_double_def)
  qed
  moreover have "\<not> toBoolean (publicPrice p) \<or> \<not> toBoolean (vat p)
      \<longrightarrow> netPublicPrice p = 0"
    by (cases "publicPrice p"; cases "vat p") (auto simp: netPublicPrice_def)
  ultimately show ?thesis by blast
qed

lemma aspirin_net_exact:
  "is_double (25 / 100)" "is_double (1 + 25 / 100)" "is_double (10 / (1 + 25 / 100))"
  by (simp_all add: is_double_def rnd_eval)

theorem netPublicPrice_truthy_fields_witness:
  "netPublicPrice aspirin = Fin 10 / (1 + Fin 25 / Fin 100) \<and> netPublicPrice aspirin = Fin 8
   \<and> netPublicPrice bandage = 0"
proof -
  have f: "publicPrice aspirin = Some (Fin 10)" "vat aspirin = Some (Fin 25)"
    "publicPrice bandage = None"
    by (simp_all add: aspirin_def bandage_def)
  note t = netPublicPrice_truthy_fields [of aspirin]
  have a: "netPublicPrice aspirin = Fin 10 / (1 + Fin 25 / Fin 100)"
    using t [THEN conjunct1, rule_format, of "Fin 10" "Fin 25"] f by simp
  have b: "netPublicPrice aspirin = Fin 8"
    using t [THEN conjunct2, THEN conjunct1, rule_format, of 10 25] f aspirin_net_exact
    by simp
  have c: "netPublicPrice bandage = 0"
    using netPublicPrice_truthy_fields [of bandage] f by simp
  from a b c show ?thesis by blast
qed

subsection \<open>Savings against the average price\<close>

text \<open>
  Claim C3, as the spec states it, asks for \<open>(averagePrice - unitPrice) * quantity\<close>
  whenever \<open>averagePrice\<close> is present. With a present \<open>averagePrice = 0\<close>, a unit
  price of 8 and a quantity of 1 that would be \<open>-8\<close>; the source tests the field by
  truthiness and gives 0.
\<close>

theorem savingsVsAverage_zero_average_counterexample:
  "averagePrice (bandage\<lparr>averagePrice := Some 0\<rparr>) = Some 0
   \<and> savingsVsAverage (bandage\<lparr>averagePrice := Some 0\<rparr>) = 0
   \<and> (0 - unitPrice (bandage\<lparr>averagePrice := Some 0\<rparr>))
       * quantity (bandage\<lparr>averagePrice := Some 0\<rparr>) = Fin (- 8)
   \<and> savingsVsAverage (bandage\<lparr>averagePrice := Some 0\<rparr>)
       \<noteq> (0 - unitPrice (bandage\<lparr>averagePrice := Some 0\<rparr>))
          * quantity (bandage\<lparr>averagePrice := Some 0\<rparr>)"
  by (simp add: bandage_def savingsVsAverage_def jsnum_arith rnd_eval)

text \<open>
  Claim C3, amended: for every product, \<open>savingsVsAverage\<close> equals 0 when
  \<open>averagePrice\<close> is absent, zero or NaN, and \<open>(averagePrice - unitPrice) * quantity\<close>
  otherwise (a signed value that may be negative; the real number where neither
  operation rounds); and for every product list, \<open>totalSavingsVsAverage\<close> equals the
  signed sum of \<open>savingsVsAverage\<close> over all products, added from left to right.
\<close>

theorem savingsVsAverage_signed_sum:
  "(\<forall>avg. averagePrice p = Some avg \<and> truthy avg
          \<longrightarrow> savingsVsAverage p = (avg - unitPrice p) * quantity p)
   \<and> (\<forall>a u q. averagePrice p = Some (Fin a) \<and> a \<noteq> 0 \<and> unitPrice p = Fin u
               \<and> quantity p = Fin q \<and> is_double (a - u) \<and> is_double ((a - u) * q)
          \<longrightarrow> savingsVsAverage p = Fin ((a - u) * q))
   \<and> (\<not> toBoolean (averagePrice p) \<longrightarrow> savingsVsAverage p = 0)
   \<and> totalSavingsVsAverage products
       = foldl (\<lambda>sum product. sum + savingsVsAverage product) 0 products"
proof -
  have "\<forall>avg. averagePrice p = Some avg \<and> truthy avg
          \<longrightarrow> savingsVsAverage p = (avg - unitPrice p) * quantity p"
    by (simp add: savingsVsAverage_def)
  moreover have "\<forall>a u q. averagePrice p = Some (Fin a) \<and> a \<noteq> 0 \<and> unitPrice p = Fin u
               \<and> quantity p = Fin q \<and> is_double (a - u) \<and> is_double ((a - u) * q)
          \<longrightarrow> savingsVsAverage p = Fin ((a - u) * q)"
    by (simp add: savingsVsAverage_def jsnum_arith is_double_def)
  moreover have "\<not> toBoolean (averagePrice p) \<longrightarrow> savingsVsAverage p = 0"
    by (cases "averagePrice p") (simp_all add: savingsVsAverage_def)
  moreover have "totalSavingsVsAverage products
       = foldl (\<lambda>sum product. sum + savingsVsAverage product) 0 products"
    unfolding totalSavingsVsAverage_def
    by (rule savings_fold) (simp add: zero_jsnum_def is_double_0)
  ultimately show ?thesis by blast
qed

lemma small_exact:
  "is_double (6 - 5)" "is_double ((6 - 5) * 2)" "is_double (6 - 7)" "is_double ((6 - 7) * 2)"
  by (simp_all add: is_double_def rnd_eval)

theorem savingsVsAverage_signed_sum_witness:
  "savingsVsAverage aspirin = Fin 2
   \<and> savingsVsAverage (aspirin\<lparr>unitPrice := Fin 7\<rparr>) = Fin (- 2)
   \<and> savingsVsAverage (bandage\<lparr>averagePrice := None\<rparr>) = 0
   \<and> totalSavingsVsAverage [aspirin, bandage] = Fin 2
   \<and> totalSavingsVsAverage [aspirin\<lparr>unitPrice := Fin 7\<rparr>, bandage] = Fin (- 2)"
proof -
  have f: "averagePrice aspirin = Some (Fin 6)" "unitPrice aspirin = Fin 5"
    "quantity aspirin = Fin 2"
    by (simp_all add: aspirin_def)
  have a: "savingsVsAverage aspirin = Fin 2"
    using savingsVsAverage_signed_sum
            [of aspirin "[]", THEN conjunct2, THEN conjunct1, rule_format, of 6 5 2]
          f small_exact
    by simp
  have b: "savingsVsAverage (aspirin\<lparr>unitPrice := Fin 7\<rparr>) = Fin (- 2)"
    using savingsVsAverage_signed_sum
            [of "aspirin\<lparr>unitPrice := Fin 7\<rparr>" "[]", THEN conjunct2, THEN conjunct1,
             rule_format, of 6 7 2]
          f small_exact
    by simp
  have c: "savingsVsAverage (bandage\<lparr>averagePrice := None\<rparr>) = 0"
    using savingsVsAverage_signed_sum [of "bandage\<lparr>averagePrice := None\<rparr>" "[]"]
    by simp
  have d: "savingsVsAverage bandage = 0"
    by (simp add: bandage_def savingsVsAverage_def jsnum_arith rnd_eval)
  have z: "(0::jsnum) + Fin 2 + 0 = Fin 2" "(0::jsnum) + Fin (- 2) + 0 = Fin (- 2)"
    by (simp_all add: jsnum_arith rnd_eval)
  have e: "totalSavingsVsAverage [aspirin, bandage] = Fin 2"
    using savingsVsAverage_signed_sum [of aspirin "[aspirin, bandage]"] a d z
    by simp
  have g: "totalSavingsVsAverage [aspirin\<lparr>unitPrice := Fin 7\<rparr>, bandage] = Fin (- 2)"
    using savingsVsAverage_signed_sum
            [of aspirin "[aspirin\<lparr>unitPrice := Fin 7\<rparr>, bandage]"] b d z
    by simp
  from a b c e g show ?thesis by blast
qed

subsection \<open>Finiteness of the discount percentages\<close>

lemma grossDiscountPercent_in_range:
  assumes u: "unitPrice p = Fin u" "0 \<le> u" "u \<le> 10 ^ 12"
    and a: "publicPrice p = Some (Fin a)" "1 / 10 ^ 6 \<le> a" "a \<le> 10 ^ 12"
  shows "isFinite (grossDiscountPercent p)"
proof -
  from a have a0: "0 < a" by simp
  from a0 have t: "truthy (Fin a)" by simp
  have "\<bar>a - u\<bar> < 2 powi 41" using u a by simp
  then obtain g where g: "rnd (a - u) = Fin g" "\<bar>g\<bar> \<le> 2 powi 41"
    using rnd_bound [of "a - u" 41] by auto
  have ia: "1 / a \<le> 10 ^ 6" using a a0 by (simp add: field_simps)
  have "\<bar>g / a\<bar> = \<bar>g\<bar> * (1 / a)" using a0 by simp
  also have "\<dots> \<le> 2 powi 41 * 10 ^ 6"
    using g(2) ia a0 by (intro mult_mono) simp_all
  also have "\<dots> < 2 powi 61" by simp
  finally obtain q where q: "rnd (g / a) = Fin q" "\<bar>q\<bar> \<le> 2 powi 61"
    using rnd_bound [of "g / a" 61] by auto
  have "\<bar>q * 100\<bar> = \<bar>q\<bar> * 100" by simp
  also have "\<dots> \<le> 2 powi 61 * 100" using q(2) by simp
  also have "\<dots> < 2 powi 68" by simp
  finally obtain r where r: "rnd (q * 100) = Fin r"
    using rnd_bound [of "q * 100" 68] by auto
  from a0 have "a \<noteq> 0" by simp
  with u(1) a(1) t g(1) q(1) r show ?thesis
    by (simp add: grossDiscountPercent_def grossDiscount_def jsnum_arith)
qed

lemma netPublicPrice_in_range:
  assumes a: "publicPrice p = Some (Fin a)" "1 / 10 ^ 6 \<le> a" "a \<le> 10 ^ 12"
    and b: "vat p = Some (Fin b)" "0 < b" "b \<le> 1000"
  shows "\<exists>n. netPublicPrice p = Fin n \<and> 2 powi (- 25) \<le> n \<and> n \<le> 2 powi 40"
proof -
  from a have a0: "0 < a" by simp
  have "0 \<le> b / 100" "b / 100 < 2 powi 4" using b by simp_all
  then obtain y where y: "rnd (b / 100) = Fin y" "0 \<le> y" "y \<le> 2 powi 4"
    using rnd_nonneg_bound [of "b / 100" 4] by auto
  have "2 powi 0 \<le> 1 + y" "1 + y < 2 powi 5" using y by simp_all
  then obtain d where d: "rnd (1 + y) = Fin d" "2 powi 0 \<le> d" "d \<le> 2 powi 5"
    using rnd_pos_bound [of 0 "1 + y" 5] by auto
  from d have d0: "0 < d" "1 \<le> d" "d \<le> 32" by simp_all
  have "a / d \<le> a / 1" using a0 d0 by (intro divide_left_mono) simp_all
  with a have hi: "a / d < 2 powi 40" by simp
  have "1 / 10 ^ 6 / 32 \<le> a / 32" using a by simp
  also have "a / 32 \<le> a / d" using a0 d0 by (intro divide_left_mono) simp_all
  finally have lo: "2 powi (- 25) \<le> a / d" by (simp add: power_int_minus)
  from lo hi obtain n where n: "rnd (a / d) = Fin n" "2 powi (- 25) \<le> n" "n \<le> 2 powi 40"
    using rnd_pos_bound [of "- 25" "a / d" 40] by auto
  from a0 b d0 have "a \<noteq> 0" "b \<noteq> 0" "d \<noteq> 0" by simp_all
  with a(1) b(1) y(1) d(1) n show ?thesis
    by (simp add: netPublicPrice_def jsnum_arith)
qed

lemma netDiscountPercent_in_range:
  assumes u: "unitPrice p = Fin u" "0 \<le> u" "u \<le> 10 ^ 12"
    and n: "netPublicPrice p = Fin n" "2 powi (- 25) \<le> n" "n \<le> 2 powi 40"
  shows "isFinite (netDiscountPercent p)"
proof -
  have "(0::real) < 2 powi (- 25)" by (simp add: zero_less_power_int)
  with n have n0: "0 < n" by linarith
  have "\<bar>n - u\<bar> < 2 powi 41" using u n n0 by simp
  then obtain g where g: "rnd (n - u) = Fin g" "\<bar>g\<bar> \<le> 2 powi 41"
    using rnd_bound [of "n - u" 41] by auto
  have "1 / n \<le> 1 / 2 powi (- 25)"
    using n(2) by (intro divide_left_mono) (simp_all add: zero_less_power_int n0)
  then have i: "1 / n \<le> 2 powi 25" by (simp add: power_int_minus)
  have "\<bar>g / n\<bar> = \<bar>g\<bar> * (1 / n)" using n0 by simp
  also have "\<dots> \<le> 2 powi 41 * 2 powi 25"
    using g(2) i n0 by (intro mult_mono) simp_all
  also have "\<dots> < 2 powi 67" by simp
  finally obtain q where q: "rnd (g / n) = Fin q" "\<bar>q\<bar> \<le> 2 powi 67"
    using rnd_bound [of "g / n" 67] by auto
  have "\<bar>q * 100\<bar> = \<bar>q\<bar> * 100" by simp
  also have "\<dots> \<le> 2 powi 67 * 100" using q(2) by simp
  also have "\<dots> < 2 powi 74" by simp
  finally obtain r where r: "rnd (q * 100) = Fin r"
    using rnd_bound [of "q * 100" 74] by auto
  from n0 have "n \<noteq> 0" by simp
  with u(1) n(1) g(1) q(1) r show ?thesis
    by (simp add: netDiscountPercent_def netDiscount_def jsnum_arith)
qed

lemma percentages_in_range:
  assumes "unitPrice p = Fin u" "0 \<le> u" "u \<le> 10 ^ 12"
    "priceInRange (publicPrice p)" "rateInRange (vat p)"
  shows "isFinite (grossDiscountPercent p) \<and> isFinite (netDiscountPercent p)"
proof -
  have zero: "isFinite (netDiscountPercent p)" if "netPublicPrice p = 0"
    using that by (simp add: netDiscountPercent_def zero_jsnum_def)
  show ?thesis
  proof (cases "publicPrice p")
    case None
    then show ?thesis
      by (simp add: grossDiscountPercent_def netPublicPrice_def zero zero_jsnum_def)
  next
    case (Some pp)
    with assms(4) obtain a where pp: "pp = Fin a" "a = 0 \<or> (1 / 10 ^ 6 \<le> a \<and> a \<le> 10 ^ 12)"
      by (cases pp) simp_all
    show ?thesis
    proof (cases "a = 0")
      case True
      with Some pp show ?thesis
        by (simp add: grossDiscountPercent_def netPublicPrice_def zero zero_jsnum_def
            split: option.splits)
    next
      case False
      with pp have r: "1 / 10 ^ 6 \<le> a" "a \<le> 10 ^ 12" by simp_all
      from Some pp have a: "publicPrice p = Some (Fin a)" by simp
      have g: "isFinite (grossDiscountPercent p)"
        using assms(1-3) a r by (rule grossDiscountPercent_in_range)
      have "isFinite (netDiscountPercent p)"
      proof (cases "vat p")
        case None
        with a show ?thesis by (simp add: netPublicPrice_def zero)
      next
        case v: (Some v)
        with assms(5) obtain b where b: "v = Fin b" "0 \<le> b" "b \<le> 1000"
          by (cases v) simp_all
        show ?thesis
        proof (cases "b = 0")
          case True
          with a v b show ?thesis by (simp add: netPublicPrice_def zero)
        next
          case False
          with b have "0 < b" by simp
          with v b have "vat p = Some (Fin b)" "0 < b" "b \<le> 1000" by simp_all
          from netPublicPrice_in_range [OF a r this]
          obtain n where "netPublicPrice p = Fin n" "2 powi (- 25) \<le> n" "n \<le> 2 powi 40"
            by auto
          with assms(1-3) show ?thesis by (intro netDiscountPercent_in_range)
        qed
      qed
      with g show ?thesis by simp
    qed
  qed
qed

lemma grossDiscountPercent_bulk: "grossDiscountPercent bulk = NInf"
proof -
  define x :: real where "x = 2 ^ 1023 - 1 / 1024"
  have x: "0 < x" "2 powi 1022 \<le> x" by (simp_all add: x_def)
  from x(2) have n: "2 powi 1022 \<le> nearest x" by (rule nearest_lower) simp
  have g: "grossDiscount bulk = rnd (- x)"
    by (simp add: bulk_def grossDiscount_def jsnum_arith x_def)
  have d: "grossDiscount bulk / Fin (1 / 1024) = NInf"
  proof (cases "2 ^ 1024 \<le> nearest x")
    case True
    with x(1) have "rnd (- x) = NInf" by (simp add: rnd_def)
    then show ?thesis by (simp add: g jsnum_arith)
  next
    case False
    with x(1) have r: "rnd (- x) = Fin (- nearest x)" by (simp add: rnd_def)
    have "2 ^ 1024 \<le> 2 powi 1022 * (1024::real)" by simp
    also have "\<dots> \<le> nearest x * 1024" using n by simp
    finally have "rnd (- (nearest x * 1024)) = NInf" by (rule rnd_overflow)
    then show ?thesis by (simp add: g r jsnum_arith)
  qed
  then show ?thesis
    by (simp add: bulk_def grossDiscountPercent_def jsnum_arith)
qed

text \<open>
  Claim C4, as the spec states it, asks that both discount percentages are finite for
  every product. The division by \<open>1 + vat/100\<close> has no guard: with the finite fields
  \<open>unitPrice = 5\<close>, \<open>publicPrice = 10\<close> and \<open>vat = -100\<close> the net public price
  is \<open>10 / 0\<close>, an infinity, and \<open>netDiscountPercent\<close> is infinity over infinity,
  NaN. A guarded division can overflow as well: with \<open>unitPrice = 2 ^ 1023\<close> and
  \<open>publicPrice = 1/1024\<close>, both finite, \<open>grossDiscountPercent\<close> is \<open>-Infinity\<close>.
\<close>

theorem netDiscountPercent_vat_counterexample:
  "unitPrice (aspirin\<lparr>vat := Some (Fin (- 100))\<rparr>) = Fin 5
   \<and> publicPrice (aspirin\<lparr>vat := Some (Fin (- 100))\<rparr>) = Some (Fin 10)
   \<and> vat (aspirin\<lparr>vat := Some (Fin (- 100))\<rparr>) = Some (Fin (- 100))
   \<and> netPublicPrice (aspirin\<lparr>vat := Some (Fin (- 100))\<rparr>) = PInf
   \<and> netDiscountPercent (aspirin\<lparr>vat := Some (Fin (- 100))\<rparr>) = NaN
   \<and> \<not> isFinite (netDiscountPercent (aspirin\<lparr>vat := Some (Fin (- 100))\<rparr>))
   \<and> unitPrice bulk = Fin (2 ^ 1023) \<and> publicPrice bulk = Some (Fin (1 / 1024))
   \<and> grossDiscountPercent bulk = NInf
   \<and> \<not> isFinite (grossDiscountPercent bulk)"
proof -
  have 1: "netPublicPrice (aspirin\<lparr>vat := Some (Fin (- 100))\<rparr>) = PInf"
    by (simp add: aspirin_def netPublicPrice_def jsnum_arith rnd_eval)
  then have 2: "netDiscountPercent (aspirin\<lparr>vat := Some (Fin (- 100))\<rparr>) = NaN"
    by (simp add: netDiscountPercent_def netDiscount_def aspirin_def jsnum_arith)
  have 3: "unitPrice (aspirin\<lparr>vat := Some (Fin (- 100))\<rparr>) = Fin 5"
    "publicPrice (aspirin\<lparr>vat := Some (Fin (- 100))\<rparr>) = Some (Fin 10)"
    "vat (aspirin\<lparr>vat := Some (Fin (- 100))\<rparr>) = Some (Fin (- 100))"
    "unitPrice bulk = Fin (2 ^ 1023)" "publicPrice bulk = Some (Fin (1 / 1024))"
    by (simp_all only: aspirin_def bulk_def ProductItem.simps ProductItem.update_convs)
  from 1 2 3 grossDiscountPercent_bulk show ?thesis by simp
qed

text \<open>
  Claim C4, amended: for every product, \<open>grossDiscountPercent\<close> is 0 when
  \<open>publicPrice\<close> is absent or equal to 0, and \<open>netDiscountPercent\<close> is 0 when
  \<open>netPublicPrice\<close> is 0; and for every product whose \<open>unitPrice\<close> is between 0 and
  \<open>10^12\<close>, whose \<open>publicPrice\<close> is absent, 0 or between \<open>10^-6\<close> and
  \<open>10^12\<close>, and whose \<open>vat\<close> is absent or between 0 and 1000, both percentages
  are finite numbers in binary64 arithmetic.
\<close>

theorem discount_percent_finite:
  "(publicPrice p = None \<or> publicPrice p = Some 0 \<longrightarrow> grossDiscountPercent p = 0)
   \<and> (netPublicPrice p = 0 \<longrightarrow> netDiscountPercent p = 0)
   \<and> (\<forall>u. unitPrice p = Fin u \<and> 0 \<le> u \<and> u \<le> 10 ^ 12
          \<and> priceInRange (publicPrice p) \<and> rateInRange (vat p)
        \<longrightarrow> isFinite (grossDiscountPercent p) \<and> isFinite (netDiscountPercent p))"
proof -
  have "publicPrice p = None \<or> publicPrice p = Some 0 \<longrightarrow> grossDiscountPercent p = 0"
    by (auto simp: grossDiscountPercent_def zero_jsnum_def)
  moreover have "netPublicPrice p = 0 \<longrightarrow> netDiscountPercent p = 0"
    by (simp add: netDiscountPercent_def zero_jsnum_def)
  moreover have "\<forall>u. unitPrice p = Fin u \<and> 0 \<le> u \<and> u \<le> 10 ^ 12
          \<and> priceInRange (publicPrice p) \<and> rateInRange (vat p)
        \<longrightarrow> isFinite (grossDiscountPercent p) \<and> isFinite (netDiscountPercent p)"
    by (intro allI impI percentages_in_range) blast+
  ultimately show ?thesis by blast
qed

theorem discount_percent_finite_witness:
  "grossDiscountPercent bandage = 0
   \<and> grossDiscountPercent (aspirin\<lparr>publicPrice := Some 0\<rparr>) = 0
   \<and> netDiscountPercent bandage = 0
   \<and> isFinite (grossDiscountPercent aspirin) \<and> isFinite (netDiscountPercent aspirin)"
proof -
  have b: "publicPrice bandage = None" "netPublicPrice bandage = 0"
    by (simp_all add: bandage_def netPublicPrice_def)
  have z: "publicPrice (aspirin\<lparr>publicPrice := Some 0\<rparr>) = Some 0" by simp
  have a: "unitPrice aspirin = Fin 5" "priceInRange (publicPrice aspirin)"
    "rateInRange (vat aspirin)"
    by (simp_all add: aspirin_def)
  note t = discount_percent_finite
  from t [of bandage] b have 1: "grossDiscountPercent bandage = 0"
    "netDiscountPercent bandage = 0"
    by blast+
  from t [of "aspirin\<lparr>publicPrice := Some 0\<rparr>"] z
  have 2: "grossDiscountPercent (aspirin\<lparr>publicPrice := Some 0\<rparr>) = 0" by blast
  from t [of aspirin, THEN conjunct2, THEN conjunct2, rule_format, of 5] a
  have 3: "isFinite (grossDiscountPercent aspirin) \<and> isFinite (netDiscountPercent aspirin)"
    by simp
  from 1 2 3 show ?thesis by blast
qed

subsection \<open>The example of the spec\<close>

text \<open>
  Claim C5: for the product \<open>{quantity: 3, unitPrice: 10, publicPrice: 15, vat: 20}\<close>,
  whatever its other fields, the derived figures are \<open>grossDiscount = 5\<close>,
  \<open>grossDiscountPercent = 33.33333333333333\<close> (the binary64 value
  \<open>2345624805922133 / 2^46\<close>, which is 33.33 to two decimals),
  \<open>netPublicPrice = 12.5\<close>, \<open>netDiscount = 2.5\<close> and \<open>netDiscountPercent = 20\<close>.
\<close>

theorem spec_round_trip_example:
  "grossDiscount
     (p\<lparr>quantity := Fin 3, unitPrice := Fin 10, publicPrice := Some (Fin 15),
        vat := Some (Fin 20)\<rparr>) = Fin 5
   \<and> grossDiscountPercent
       (p\<lparr>quantity := Fin 3, unitPrice := Fin 10, publicPrice := Some (Fin 15),
          vat := Some (Fin 20)\<rparr>)
       = Fin (2345624805922133 / 70368744177664)
   \<and> \<bar>2345624805922133 / 70368744177664 - 33.33\<bar> < (0.005 :: real)
   \<and> netPublicPrice
       (p\<lparr>quantity := Fin 3, unitPrice := Fin 10, publicPrice := Some (Fin 15),
          vat := Some (Fin 20)\<rparr>)
       = Fin 12.5
   \<and> netDiscount
       (p\<lparr>quantity := Fin 3, unitPrice := Fin 10, publicPrice := Some (Fin 15),
          vat := Some (Fin 20)\<rparr>)
       = Fin 2.5
   \<and> netDiscountPercent
       (p\<lparr>quantity := Fin 3, unitPrice := Fin 10, publicPrice := Some (Fin 15),
          vat := Some (Fin 20)\<rparr>)
       = Fin 20"
  by (simp add: grossDiscount_def grossDiscountPercent_def netPublicPrice_def netDiscount_def
      netDiscountPercent_def jsnum_arith rnd_eval)

subsection \<open>Aggregates under permutation\<close>

lemma totalQuantity_nat_fold:
  assumes "\<forall>p\<in>set ps. quantity p = Fin (real (qty p))"
    and "a + sum_list (map qty ps) \<le> 2 ^ 53"
  shows "foldl (\<lambda>sum product. sum + quantity product) (Fin (real a)) ps
         = Fin (real (a + sum_list (map qty ps)))"
  using assms
proof (induction ps arbitrary: a)
  case Nil
  show ?case by simp
next
  case (Cons p ps)
  from Cons.prems(2) have le: "a + qty p \<le> 2 ^ 53" by simp
  then have "int (a + qty p) \<le> 2 ^ 53" by (simp add: le_nat_iff [symmetric] nat_le_iff)
  then have "is_double (real_of_int (int (a + qty p)))"
    by (intro is_double_int) simp
  then have "rnd (real a + real (qty p)) = Fin (real (a + qty p))"
    by (simp add: is_double_def)
  with Cons.prems(1) have step: "Fin (real a) + quantity p = Fin (real (a + qty p))"
    by (simp add: plus_jsnum_def)
  from Cons.prems have "foldl (\<lambda>sum product. sum + quantity product) (Fin (real (a + qty p))) ps
      = Fin (real (a + qty p + sum_list (map qty ps)))"
    by (intro Cons.IH) (simp_all add: add.assoc)
  with step show ?case by (simp add: add.assoc)
qed

lemma totalQuantity_nat:
  assumes "\<forall>p\<in>set ps. quantity p = Fin (real (qty p))"
    and "sum_list (map qty ps) \<le> 2 ^ 53"
  shows "totalQuantity ps = Fin (real (sum_list (map qty ps)))"
  using totalQuantity_nat_fold [of ps qty 0] assms
  by (simp add: totalQuantity_def zero_jsnum_def)

lemma sum_list_nat_perm:
  "mset ps = mset qs \<Longrightarrow> sum_list (map f ps) = sum_list (map f qs)" for f :: "'a \<Rightarrow> nat"
proof -
  assume "mset ps = mset qs"
  then have "mset (map f ps) = mset (map f qs)" by simp
  then have "sum_mset (mset (map f ps)) = sum_mset (mset (map f qs))" by (rule arg_cong)
  then show ?thesis by (simp only: sum_mset_sum_list)
qed

lemma eligible_length_perm:
  "mset ps = mset qs \<Longrightarrow> length (eligible ps) = length (eligible qs)"
proof -
  assume "mset ps = mset qs"
  then have "mset (eligible ps) = mset (eligible qs)"
    by (simp add: eligible_def)
  then show ?thesis by (rule mset_eq_length)
qed

text \<open>
  Claim C6, as the spec states it, asks that every aggregate is unchanged by a
  permutation of the product list. The sums are binary64 sums taken in list order, and
  binary64 addition is not associative. For the three order lines \<open>gauze\<close>,
  \<open>syringe\<close>, \<open>gloves\<close>, swapping the last two changes \<open>totalSavingsVsAverage\<close>
  from 0 to \<open>2^-52\<close>, which brings the "Savings vs Avg" row of the summary onto the
  display, and changes \<open>averageDiscountPercent\<close> from 57.575757575757564 to
  57.57575757575757. For quantities \<open>2^53\<close>, 1, 1, \<open>totalQuantity\<close> is \<open>2^53\<close>
  in that order and \<open>2^53 + 2\<close> with the large quantity last.
\<close>

theorem aggregates_order_counterexample:
  "mset [gauze, gloves, syringe] = mset [gauze, syringe, gloves]
   \<and> totalSavingsVsAverage [gauze, syringe, gloves] = Fin 0
   \<and> totalSavingsVsAverage [gauze, gloves, syringe] = Fin (1 / 4503599627370496)
   \<and> \<not> showSavingsVsAvg [gauze, syringe, gloves]
   \<and> showSavingsVsAvg [gauze, gloves, syringe]
   \<and> averageDiscountPercent [gauze, syringe, gloves]
       = Fin (1012883438920921 / 17592186044416)
   \<and> averageDiscountPercent [gauze, gloves, syringe]
       = Fin (8103067511367369 / 140737488355328)
   \<and> mset [bandage, bandage, pallet] = mset [pallet, bandage, bandage]
   \<and> totalQuantity [pallet, bandage, bandage] = Fin 9007199254740992
   \<and> totalQuantity [bandage, bandage, pallet] = Fin 9007199254740994"
proof -
  have s1: "totalSavingsVsAverage [gauze, syringe, gloves] = Fin 0"
    by (simp add: totalSavingsVsAverage_def gauze_def syringe_def gloves_def jsnum_arith
        rnd_eval)
  have s2: "totalSavingsVsAverage [gauze, gloves, syringe] = Fin (1 / 4503599627370496)"
    by (simp add: totalSavingsVsAverage_def gauze_def syringe_def gloves_def jsnum_arith
        rnd_eval)
  have a1: "averageDiscountPercent [gauze, syringe, gloves]
      = Fin (1012883438920921 / 17592186044416)"
    by (simp add: averageDiscountPercent_def discountSum_def eligible_def gauze_def
        syringe_def gloves_def jsnum_arith rnd_eval)
  have a2: "averageDiscountPercent [gauze, gloves, syringe]
      = Fin (8103067511367369 / 140737488355328)"
    by (simp add: averageDiscountPercent_def discountSum_def eligible_def gauze_def
        syringe_def gloves_def jsnum_arith rnd_eval)
  have q1: "totalQuantity [pallet, bandage, bandage] = Fin 9007199254740992"
    by (simp add: totalQuantity_def pallet_def bandage_def jsnum_arith rnd_eval)
  have q2: "totalQuantity [bandage, bandage, pallet] = Fin 9007199254740994"
    by (simp add: totalQuantity_def pallet_def bandage_def jsnum_arith rnd_eval)
  have m: "mset [gauze, gloves, syringe] = mset [gauze, syringe, gloves]"
    "mset [bandage, bandage, pallet] = mset [pallet, bandage, bandage]"
    by (simp_all add: add.commute)
  have g: "\<not> showSavingsVsAvg [gauze, syringe, gloves]"
    "showSavingsVsAvg [gauze, gloves, syringe]"
    by (simp_all add: showSavingsVsAvg_def s1 s2 zero_jsnum_def)
  from s1 s2 a1 a2 q1 q2 m g show ?thesis by blast
qed

text \<open>
  Claim C6, amended: for every product list and every permutation of it (a list with
  the same multiset of products), the count of unique suppliers and the number of
  eligible products are unchanged, and \<open>totalQuantity\<close> is unchanged, being the exact
  total, when the quantities are non-negative integers whose total is at most \<open>2^53\<close>.
  \<open>totalSavingsVsAverage\<close> and \<open>averageDiscountPercent\<close> are the binary64 sums, from
  left to right, of the same per-product terms in both lists (the second divided by the
  same count); they are not promised to be equal.
\<close>

theorem aggregates_under_permutation:
  assumes "mset products' = mset products"
  shows "uniqueSuppliers products' = uniqueSuppliers products
       \<and> length (eligible products') = length (eligible products)
       \<and> ((\<forall>p\<in>set products. quantity p = Fin (real (qty p)))
            \<and> sum_list (map qty products) \<le> 2 ^ 53
          \<longrightarrow> totalQuantity products = Fin (real (sum_list (map qty products)))
              \<and> totalQuantity products' = totalQuantity products)
       \<and> totalSavingsVsAverage products = foldl (+) 0 (map savingsVsAverage products)
       \<and> averageDiscountPercent products
           = foldl (+) 0 (map grossDiscountPercent (eligible products))
             / Fin (real (length (eligible products)))
       \<and> mset (map savingsVsAverage products') = mset (map savingsVsAverage products)
       \<and> mset (map grossDiscountPercent (eligible products'))
           = mset (map grossDiscountPercent (eligible products))"
proof -
  have s: "set products' = set products"
    using assms by (rule mset_eq_setD)
  then have u: "uniqueSuppliers products' = uniqueSuppliers products"
    by (simp add: uniqueSuppliers_def)
  have e: "length (eligible products') = length (eligible products)"
    using assms by (rule eligible_length_perm)
  have t: "mset (map savingsVsAverage products') = mset (map savingsVsAverage products)"
    using assms by simp
  have "mset (eligible products') = mset (eligible products)"
    using assms by (simp add: eligible_def)
  then have d: "mset (map grossDiscountPercent (eligible products'))
           = mset (map grossDiscountPercent (eligible products))"
    by simp
  have q: "totalQuantity products = Fin (real (sum_list (map qty products)))
      \<and> totalQuantity products' = totalQuantity products"
    if h: "\<forall>p\<in>set products. quantity p = Fin (real (qty p))"
      "sum_list (map qty products) \<le> 2 ^ 53"
  proof -
    have n: "sum_list (map qty products') = sum_list (map qty products)"
      using assms by (rule sum_list_nat_perm)
    from h have a: "totalQuantity products = Fin (real (sum_list (map qty products)))"
      by (rule totalQuantity_nat)
    from h s n have "totalQuantity products' = Fin (real (sum_list (map qty products')))"
      by (intro totalQuantity_nat) simp_all
    with a n show ?thesis by simp
  qed
  note f = totalSavingsVsAverage_terms [of products] averageDiscountPercent_mean [of products]
  from u e t d q f show ?thesis by blast
qed

theorem aggregates_under_permutation_witness:
  "mset [bandage, aspirin] = mset [aspirin, bandage]
   \<and> uniqueSuppliers [bandage, aspirin] = 2 \<and> uniqueSuppliers [aspirin, bandage] = 2
   \<and> length (eligible [bandage, aspirin]) = 1 \<and> length (eligible [aspirin, bandage]) = 1
   \<and> totalQuantity [bandage, aspirin] = Fin 3 \<and> totalQuantity [aspirin, bandage] = Fin 3"
proof -
  have m: "mset [bandage, aspirin] = mset [aspirin, bandage]" by simp
  have q: "\<forall>p\<in>set [aspirin, bandage].
      quantity p = Fin (real (if quantity p = Fin 2 then 2 else 1 :: nat))"
    "sum_list (map (\<lambda>p. if quantity p = Fin 2 then 2 else 1 :: nat) [aspirin, bandage]) = 3"
    by (simp_all add: aspirin_def bandage_def)
  have u: "uniqueSuppliers [aspirin, bandage] = 2"
    by (simp add: uniqueSuppliers_def aspirin_def bandage_def str_def)
  have e: "length (eligible [aspirin, bandage]) = 1"
    by (simp add: eligible_def aspirin_def bandage_def)
  note t = aggregates_under_permutation
             [OF m, of "\<lambda>p. if quantity p = Fin 2 then 2 else 1"]
  from t u e have 1: "uniqueSuppliers [bandage, aspirin] = 2"
    "length (eligible [bandage, aspirin]) = 1"
    by simp_all
  from t [THEN conjunct2, THEN conjunct2, THEN conjunct1] q
  have 2: "totalQuantity [aspirin, bandage] = Fin 3"
    "totalQuantity [bandage, aspirin] = Fin 3"
    by simp_all
  from m u e 1 2 show ?thesis by blast
qed

subsection \<open>A public price of zero\<close>

text \<open>
  Claim C10, as stated, concludes that a present \<open>publicPrice\<close> of 0 cannot be told
  from an absent one at the public interface. The export row copies the field as it is,
  so the row of a product with \<open>publicPrice = 0\<close> holds 0 and the row of the same
  product without the field holds nothing; and \<open>ProductRow\<close> renders the number 0
  where it renders nothing for an absent price.
\<close>

theorem zero_publicPrice_export_counterexample:
  "publicPrice (aspirin\<lparr>publicPrice := Some 0\<rparr>) = Some 0
   \<and> row_publicPrice (exportProduct (aspirin\<lparr>publicPrice := Some 0\<rparr>)) = Some 0
   \<and> row_publicPrice (exportProduct (aspirin\<lparr>publicPrice := None\<rparr>)) = None
   \<and> exportProduct (aspirin\<lparr>publicPrice := Some 0\<rparr>)
       \<noteq> exportProduct (aspirin\<lparr>publicPrice := None\<rparr>)
   \<and> publicPriceBlock (aspirin\<lparr>publicPrice := Some 0\<rparr>) = JsxNumber 0
   \<and> publicPriceBlock (aspirin\<lparr>publicPrice := None\<rparr>) = JsxUndefined"
  by (simp add: exportProduct_def publicPriceBlock_def zero_jsnum_def)

text \<open>
  Claim C10, amended: for every product whose \<open>publicPrice\<close> is present but equal to
  0, \<open>grossDiscount\<close> and \<open>grossDiscountPercent\<close> are 0, every figure derived from
  the public price is the one of the same product with \<open>publicPrice\<close> absent, the
  product is not in the eligible subset of any list, and the average discount of a list
  is the same with the product as it is, with its \<open>publicPrice\<close> removed, or without
  the product. The two are told apart outside the price math: the export row keeps the 0
  where the other row has no value, and the row on screen shows a 0.
\<close>

theorem zero_publicPrice_as_absent:
  assumes "publicPrice p = Some 0"
  shows "grossDiscount p = 0 \<and> grossDiscountPercent p = 0
       \<and> grossDiscount p = grossDiscount (p\<lparr>publicPrice := None\<rparr>)
       \<and> grossDiscountPercent p = grossDiscountPercent (p\<lparr>publicPrice := None\<rparr>)
       \<and> netPublicPrice p = netPublicPrice (p\<lparr>publicPrice := None\<rparr>)
       \<and> netDiscount p = netDiscount (p\<lparr>publicPrice := None\<rparr>)
       \<and> netDiscountPercent p = netDiscountPercent (p\<lparr>publicPrice := None\<rparr>)
       \<and> p \<notin> set (eligible products)
       \<and> averageDiscountPercent (xs @ p # ys)
           = averageDiscountPercent (xs @ p\<lparr>publicPrice := None\<rparr> # ys)
       \<and> averageDiscountPercent (xs @ p # ys) = averageDiscountPercent (xs @ ys)
       \<and> row_publicPrice (exportProduct p) = Some 0
       \<and> row_publicPrice (exportProduct (p\<lparr>publicPrice := None\<rparr>)) = None
       \<and> publicPriceBlock p = JsxNumber 0
       \<and> publicPriceBlock (p\<lparr>publicPrice := None\<rparr>) = JsxUndefined"
proof -
  have f: "\<not> toBoolean (publicPrice p)" "\<not> toBoolean (publicPrice (p\<lparr>publicPrice := None\<rparr>))"
    using assms by (simp_all add: zero_jsnum_def)
  have g: "grossDiscount p = 0" "grossDiscount (p\<lparr>publicPrice := None\<rparr>) = 0"
    using assms by (simp_all add: grossDiscount_def zero_jsnum_def)
  have gp: "grossDiscountPercent p = 0"
    "grossDiscountPercent (p\<lparr>publicPrice := None\<rparr>) = 0"
    using assms by (simp_all add: grossDiscountPercent_def zero_jsnum_def)
  have n: "netPublicPrice p = 0" "netPublicPrice (p\<lparr>publicPrice := None\<rparr>) = 0"
    using assms by (simp_all add: netPublicPrice_def zero_jsnum_def split: option.splits)
  have nd: "netDiscount p = 0" "netDiscount (p\<lparr>publicPrice := None\<rparr>) = 0"
    by (simp_all add: netDiscount_def n) (simp_all add: zero_jsnum_def)
  have ndp: "netDiscountPercent p = 0"
    "netDiscountPercent (p\<lparr>publicPrice := None\<rparr>) = 0"
    by (simp_all add: netDiscountPercent_def n) (simp_all add: zero_jsnum_def)
  have e: "p \<notin> set (eligible products)"
    using f by (simp add: eligible_def)
  have el: "eligible (xs @ p # ys) = eligible (xs @ ys)"
    "eligible (xs @ p\<lparr>publicPrice := None\<rparr> # ys) = eligible (xs @ ys)"
    using f by (simp_all add: eligible_skip)
  have a: "averageDiscountPercent (xs @ p # ys) = averageDiscountPercent (xs @ ys)"
    "averageDiscountPercent (xs @ p\<lparr>publicPrice := None\<rparr> # ys)
       = averageDiscountPercent (xs @ ys)"
    by (simp_all only: averageDiscountPercent_mean el)
  have x: "row_publicPrice (exportProduct p) = Some 0"
    "row_publicPrice (exportProduct (p\<lparr>publicPrice := None\<rparr>)) = None"
    "publicPriceBlock p = JsxNumber 0"
    "publicPriceBlock (p\<lparr>publicPrice := None\<rparr>) = JsxUndefined"
    using assms by (simp_all add: exportProduct_def publicPriceBlock_def zero_jsnum_def)
  from g gp n nd ndp e a x show ?thesis by simp
qed

lemma aspirin_average: "averageDiscountPercent [aspirin] = Fin 50"
  by (simp add: averageDiscountPercent_def discountSum_def eligible_def aspirin_def
      jsnum_arith rnd_eval)

theorem zero_publicPrice_as_absent_witness:
  "publicPrice (aspirin\<lparr>publicPrice := Some 0\<rparr>) = Some 0
   \<and> grossDiscount (aspirin\<lparr>publicPrice := Some 0\<rparr>) = 0
   \<and> grossDiscountPercent (aspirin\<lparr>publicPrice := Some 0\<rparr>) = 0
   \<and> averageDiscountPercent [aspirin, aspirin\<lparr>publicPrice := Some 0\<rparr>] = Fin 50
   \<and> averageDiscountPercent [aspirin] = Fin 50
   \<and> row_publicPrice (exportProduct (aspirin\<lparr>publicPrice := Some 0\<rparr>)) = Some 0"
proof -
  have z: "publicPrice (aspirin\<lparr>publicPrice := Some 0\<rparr>) = Some 0" by simp
  note t = zero_publicPrice_as_absent [OF z, of "[]" "[aspirin]" "[]"]
  from t have g: "grossDiscount (aspirin\<lparr>publicPrice := Some 0\<rparr>) = 0"
    "grossDiscountPercent (aspirin\<lparr>publicPrice := Some 0\<rparr>) = 0"
    "row_publicPrice (exportProduct (aspirin\<lparr>publicPrice := Some 0\<rparr>)) = Some 0"
    by blast+
  from t have "averageDiscountPercent ([aspirin] @ aspirin\<lparr>publicPrice := Some 0\<rparr> # [])
      = averageDiscountPercent ([aspirin] @ [])"
    by blast
  then have a: "averageDiscountPercent [aspirin, aspirin\<lparr>publicPrice := Some 0\<rparr>] = Fin 50"
    by (simp add: aspirin_average)
  from z g a aspirin_average show ?thesis by blast
qed

subsection \<open>Form handlers\<close>

text \<open>
  Claim C9: every form input event (text change, select change, checkbox toggle, radio
  choice) updates exactly the one named field of \<open>orderData\<close>, to the value the event
  carries, and leaves every other field unchanged. The named field is the target's
  \<open>name\<close> for the first three handlers and \<open>priority\<close> for the radio group.
\<close>

theorem handlers_update_one_field:
  "handleChange e prev (target_name e) = Some (Str (target_value e))
   \<and> (\<forall>k. k \<noteq> target_name e \<longrightarrow> handleChange e prev k = prev k)
   \<and> handleSelectChange e prev (target_name e) = Some (Str (target_value e))
   \<and> (\<forall>k. k \<noteq> target_name e \<longrightarrow> handleSelectChange e prev k = prev k)
   \<and> handleCheckboxChange e prev (target_name e) = Some (Bool (target_checked e))
   \<and> (\<forall>k. k \<noteq> target_name e \<longrightarrow> handleCheckboxChange e prev k = prev k)
   \<and> handleRadioChange e prev (str ''priority'') = Some (Str (target_value e))
   \<and> (\<forall>k. k \<noteq> str ''priority'' \<longrightarrow> handleRadioChange e prev k = prev k)"
  by (simp add: handleChange_def handleSelectChange_def handleCheckboxChange_def
      handleRadioChange_def)

lemma notes_is_another_field:
  "str ''notes'' \<noteq> str ''orderName''" "str ''notes'' \<noteq> str ''priority''"
  by (simp_all add: str_def)

theorem handlers_update_one_field_witness:
  "handleChange (orderNameEvent (str ''PO-42'')) (initialOrderData (str ''2025-01-31''))
      (str ''orderName'') = Some (Str (str ''PO-42''))
   \<and> handleChange (orderNameEvent (str ''PO-42'')) (initialOrderData (str ''2025-01-31''))
      (str ''notes'') = Some (Str [])
   \<and> handleRadioChange (orderNameEvent (str ''standard''))
      (initialOrderData (str ''2025-01-31'')) (str ''priority'')
      = Some (Str (str ''standard''))
   \<and> handleRadioChange (orderNameEvent (str ''standard''))
      (initialOrderData (str ''2025-01-31'')) (str ''notes'') = Some (Str [])"
proof -
  have i: "initialOrderData (str ''2025-01-31'') (str ''notes'') = Some (Str [])"
    by (simp add: initialOrderData_def str_def)
  from handlers_update_one_field
         [of "orderNameEvent (str ''PO-42'')" "initialOrderData (str ''2025-01-31'')"]
       handlers_update_one_field
         [of "orderNameEvent (str ''standard'')" "initialOrderData (str ''2025-01-31'')"]
       i notes_is_another_field
  show ?thesis by (simp add: orderNameEvent_def)
qed

subsection \<open>Submit and save draft\<close>

lemma all_dropWhile:
  "(\<forall>x\<in>set (dropWhile P xs). P x) \<longleftrightarrow> (\<forall>x\<in>set xs. P x)"
  by (induction xs) auto

lemma trim_empty_iff: "trim s = [] \<longleftrightarrow> (\<forall>c\<in>set s. is_whitespace c)"
  by (simp add: trim_def dropWhile_eq_Nil_conv all_dropWhile)

lemma trim_spaces: "trim (str ''   '') = []"
  by (simp add: trim_def str_def is_whitespace_def)

lemma trim_po42: "trim (str ''PO-42'') = str ''PO-42''"
  by (simp add: trim_def str_def is_whitespace_def)

text \<open>
  Claim C7: with a string \<open>s\<close> as \<open>orderName\<close>, the Submit button is enabled exactly
  when \<open>s\<close> trimmed is non-empty, that is when \<open>s\<close> has a character that is not
  white space; pressing it then calls \<open>onSubmitOrder\<close> with the whole \<open>orderData\<close>
  and after that \<open>onClose\<close>, and does nothing while the button is disabled. Save Draft
  is never disabled and calls \<open>onSaveAsDraft\<close>, then \<open>onClose\<close>. The witness runs
  both buttons on the names \<open>"   "\<close> (disabled) and \<open>"PO-42"\<close> (enabled).
\<close>

theorem submit_and_saveDraft:
  assumes "orderData (str ''orderName'') = Some (Str s)"
  shows "submitDisabled orderData = Inr (trim s = [])
       \<and> (trim s \<noteq> [] \<longleftrightarrow> (\<exists>c\<in>set s. \<not> is_whitespace c))
       \<and> pressSubmit orderData
           = (if trim s \<noteq> [] then [OnSubmitOrder orderData, OnClose] else [])
       \<and> \<not> saveDraftDisabled orderData
       \<and> pressSaveDraft orderData = [OnSaveAsDraft, OnClose]"
proof -
  have d: "submitDisabled orderData = Inr (trim s = [])"
    using assms by (simp add: submitDisabled_def)
  have t: "trim s \<noteq> [] \<longleftrightarrow> (\<exists>c\<in>set s. \<not> is_whitespace c)"
    by (simp add: trim_empty_iff)
  have p: "pressSubmit orderData
      = (if trim s \<noteq> [] then [OnSubmitOrder orderData, OnClose] else [])"
    by (simp add: pressSubmit_def d submitOnClick_def)
  have q: "\<not> saveDraftDisabled orderData
      \<and> pressSaveDraft orderData = [OnSaveAsDraft, OnClose]"
    by (simp add: saveDraftDisabled_def pressSaveDraft_def saveDraftOnClick_def)
  from d t p q show ?thesis by blast
qed

theorem submit_and_saveDraft_witness:
  "submitDisabled (orderNamed (str ''   '')) = Inr True
   \<and> pressSubmit (orderNamed (str ''   '')) = []
   \<and> pressSaveDraft (orderNamed (str ''   '')) = [OnSaveAsDraft, OnClose]
   \<and> submitDisabled (orderNamed (str ''PO-42'')) = Inr False
   \<and> pressSubmit (orderNamed (str ''PO-42''))
       = [OnSubmitOrder (orderNamed (str ''PO-42'')), OnClose]
   \<and> pressSaveDraft (orderNamed (str ''PO-42'')) = [OnSaveAsDraft, OnClose]"
proof -
  have a: "orderNamed (str ''   '') (str ''orderName'') = Some (Str (str ''   ''))"
    by (simp add: orderNamed_def handleChange_def orderNameEvent_def)
  have b: "orderNamed (str ''PO-42'') (str ''orderName'') = Some (Str (str ''PO-42''))"
    by (simp add: orderNamed_def handleChange_def orderNameEvent_def)
  have c: "str ''PO-42'' \<noteq> []" by (simp add: str_def)
  from submit_and_saveDraft [of "orderNamed (str ''   '')" "str ''   ''", OF a]
       submit_and_saveDraft [of "orderNamed (str ''PO-42'')" "str ''PO-42''", OF b]
       trim_spaces trim_po42 c
  show ?thesis by simp
qed

subsection \<open>Export\<close>

text \<open>
  Claim C8, as the spec states it, asks for the title \<open>"Untitled Order"\<close> when the
  entered order name is blank, which the spec uses for a name that is empty once
  trimmed: the case that disables Submit. \<open>handleExport\<close> does not trim. For the name
  \<open>"   "\<close> Submit is disabled and the export title is \<open>"   "\<close>.
\<close>

theorem handleExport_blank_title_counterexample:
  "trim (str ''   '') = []
   \<and> submitDisabled (orderNamed (str ''   '')) = Inr True
   \<and> title (handleExport (orderNamed (str ''   '')) [aspirin] None Csv) = Str (str ''   '')
   \<and> title (handleExport (orderNamed (str ''   '')) [aspirin] None Csv)
       \<noteq> Str (str ''Untitled Order'')"
  by (simp add: handleExport_def orderNamed_def handleChange_def orderNameEvent_def
      submitDisabled_def trim_def str_def is_whitespace_def)

text \<open>
  Claim C8, amended: for every product list, the export call carries exactly one row per
  product, in list order; the row of a product has its \<open>id\<close>, \<open>name\<close>, \<open>code\<close>,
  \<open>quantity\<close> and \<open>unitPrice\<close>, and its \<open>averagePrice\<close>, \<open>priceBreakdowns\<close>,
  \<open>publicPrice\<close> and \<open>vat\<close> as they are, absent where they are absent. The title
  is the entered order name, and \<open>"Untitled Order"\<close> when that name is the empty
  string; any other name, one of white space only too, is passed as entered. An empty
  product list gives an empty row sequence.
\<close>

theorem handleExport_rows:
  "length (rows (handleExport orderData products userRole fmt)) = length products
   \<and> (\<forall>i < length products.
        row_id (rows (handleExport orderData products userRole fmt) ! i)
          = id' (products ! i)
      \<and> row_name (rows (handleExport orderData products userRole fmt) ! i)
          = name (products ! i)
      \<and> row_code (rows (handleExport orderData products userRole fmt) ! i)
          = code (products ! i)
      \<and> row_quantity (rows (handleExport orderData products userRole fmt) ! i)
          = quantity (products ! i)
      \<and> row_unitPrice (rows (handleExport orderData products userRole fmt) ! i)
          = unitPrice (products ! i)
      \<and> row_averagePrice (rows (handleExport orderData products userRole fmt) ! i)
          = averagePrice (products ! i)
      \<and> row_priceBreakdowns (rows (handleExport orderData products userRole fmt) ! i)
          = priceBreakdowns (products ! i)
      \<and> row_publicPrice (rows (handleExport orderData products userRole fmt) ! i)
          = publicPrice (products ! i)
      \<and> row_vat (rows (handleExport orderData products userRole fmt) ! i)
          = vat (products ! i))
   \<and> (\<forall>s. orderData (str ''orderName'') = Some (Str s) \<longrightarrow>
        title (handleExport orderData products userRole fmt)
          = Str (if s = [] then str ''Untitled Order'' else s))
   \<and> rows (handleExport orderData [] userRole fmt) = []"
  by (simp add: handleExport_def exportProduct_def)

theorem handleExport_rows_witness:
  "length (rows (handleExport (orderNamed (str ''PO-42'')) [aspirin, bandage] None Csv)) = 2
   \<and> row_id (rows (handleExport (orderNamed (str ''PO-42'')) [aspirin, bandage] None Csv) ! 1)
       = str ''p2''
   \<and> row_publicPrice
       (rows (handleExport (orderNamed (str ''PO-42'')) [aspirin, bandage] None Csv) ! 0)
       = Some (Fin 10)
   \<and> row_publicPrice
       (rows (handleExport (orderNamed (str ''PO-42'')) [aspirin, bandage] None Csv) ! 1)
       = None
   \<and> title (handleExport (orderNamed (str ''PO-42'')) [aspirin, bandage] None Csv)
       = Str (str ''PO-42'')
   \<and> title (handleExport (orderNamed []) [aspirin, bandage] None Csv)
       = Str (str ''Untitled Order'')
   \<and> rows (handleExport (orderNamed []) [] None Xlsx) = []"
proof -
  have a: "orderNamed (str ''PO-42'') (str ''orderName'') = Some (Str (str ''PO-42''))"
    by (simp add: orderNamed_def handleChange_def orderNameEvent_def)
  have b: "orderNamed [] (str ''orderName'') = Some (Str [])"
    by (simp add: orderNamed_def handleChange_def orderNameEvent_def)
  have c: "str ''PO-42'' \<noteq> []" by (simp add: str_def)
  have p: "id' bandage = str ''p2''" "publicPrice aspirin = Some (Fin 10)"
    "publicPrice bandage = None"
    by (simp_all add: aspirin_def bandage_def)
  from handleExport_rows [of "orderNamed (str ''PO-42'')" "[aspirin, bandage]" None Csv]
       handleExport_rows [of "orderNamed []" "[aspirin, bandage]" None Csv]
       handleExport_rows [of "orderNamed []" "[]" None Xlsx]
       a b c p
  show ?thesis by (simp add: nth_Cons')
qed

end
